theory Spec2Isabelle
  imports Complex_Main
begin

section \<open>Python numbers\<close>

text \<open>
  A Python \<open>float\<close> is modelled as a real number or one of the three special values of
  IEEE arithmetic. Rounding, overflow of finite operations and the sign of zero are not
  modelled; a Python \<open>int\<close> is embedded as the finite value of the same magnitude (an
  \<open>int\<close> is never NaN or infinite, so every \<open>isinstance(value, float)\<close> test of the
  source agrees with the embedding).
\<close>

datatype pyfloat = Fin real | PInf | NInf | NaN

datatype pyerror = TypeError | ZeroDivisionError | ValueError string | DatabaseError

fun fsign :: "pyfloat \<Rightarrow> int" where
  "fsign (Fin a) = (if a > 0 then 1 else if a < 0 then -1 else 0)"
| "fsign PInf = 1"
| "fsign NInf = -1"
| "fsign NaN = 0"

definition of_sign :: "int \<Rightarrow> pyfloat" where
  "of_sign s = (if s > 0 then PInf else if s < 0 then NInf else NaN)"

fun fneg :: "pyfloat \<Rightarrow> pyfloat" where
  "fneg (Fin a) = Fin (- a)"
| "fneg PInf = NInf"
| "fneg NInf = PInf"
| "fneg NaN = NaN"

fun fadd :: "pyfloat \<Rightarrow> pyfloat \<Rightarrow> pyfloat" where
  "fadd NaN _ = NaN"
| "fadd _ NaN = NaN"
| "fadd (Fin a) (Fin b) = Fin (a + b)"
| "fadd PInf NInf = NaN"
| "fadd NInf PInf = NaN"
| "fadd PInf _ = PInf"
| "fadd _ PInf = PInf"
| "fadd NInf _ = NInf"
| "fadd _ NInf = NInf"

definition fsub :: "pyfloat \<Rightarrow> pyfloat \<Rightarrow> pyfloat" where
  "fsub a b = fadd a (fneg b)"

fun fmul :: "pyfloat \<Rightarrow> pyfloat \<Rightarrow> pyfloat" where
  "fmul NaN _ = NaN"
| "fmul _ NaN = NaN"
| "fmul (Fin a) (Fin b) = Fin (a * b)"
| "fmul a b = of_sign (fsign a * fsign b)"

text \<open>Python's \<open>a / b\<close> on floats: a zero divisor raises, whatever the dividend.\<close>

fun fdiv :: "pyfloat \<Rightarrow> pyfloat \<Rightarrow> pyerror + pyfloat" where
  "fdiv a (Fin b) =
     (if b = 0 then Inl ZeroDivisionError
      else case a of Fin x \<Rightarrow> Inr (Fin (x / b)) | NaN \<Rightarrow> Inr NaN
           | _ \<Rightarrow> Inr (of_sign (fsign a * fsign (Fin b))))"
| "fdiv _ NaN = Inr NaN"
| "fdiv (Fin a) _ = Inr (Fin 0)"
| "fdiv _ _ = Inr NaN"

text \<open>Comparisons: every comparison with NaN is false.\<close>

fun flt :: "pyfloat \<Rightarrow> pyfloat \<Rightarrow> bool" where
  "flt NaN _ = False"
| "flt _ NaN = False"
| "flt (Fin a) (Fin b) = (a < b)"
| "flt _ NInf = False"
| "flt PInf _ = False"
| "flt _ _ = True"

definition fgt :: "pyfloat \<Rightarrow> pyfloat \<Rightarrow> bool" where
  "fgt a b = flt b a"

definition fle :: "pyfloat \<Rightarrow> pyfloat \<Rightarrow> bool" where
  "fle a b = (a \<noteq> NaN \<and> b \<noteq> NaN \<and> (a = b \<or> flt a b))"

text \<open>\<open>max(a, b)\<close> of Python returns \<open>a\<close> unless \<open>b > a\<close>.\<close>

definition pymax :: "pyfloat \<Rightarrow> pyfloat \<Rightarrow> pyfloat" where
  "pymax a b = (if fgt b a then b else a)"

section \<open>Safe-float normalisation\<close>

text \<open>
  \<open>_safe_float\<close>: \<open>None\<close> is the Python \<open>None\<close>. The value returned is always a
  finite float, so the result type is \<open>real\<close>.
\<close>

fun safe_float :: "pyfloat option \<Rightarrow> real" where
  "safe_float None = 0"
| "safe_float (Some NaN) = 0"
| "safe_float (Some PInf) = 0"
| "safe_float (Some NInf) = 0"
| "safe_float (Some (Fin x)) = x"

section \<open>Source breakdown\<close>

record breakdown =
  solar :: real
  grid :: real

text \<open>
  \<open>get_energy_source_breakdown\<close>. The \<open>try\<close> block of the source turns any exception
  into the zero breakdown; the only operation that can raise is the division.
\<close>

definition get_energy_source_breakdown :: "pyfloat \<Rightarrow> pyfloat \<Rightarrow> breakdown" where
  "get_energy_source_breakdown generation consumption =
     (let total_power = pymax generation consumption in
      if fle total_power (Fin 0) then \<lparr>solar = 0, grid = 0\<rparr>
      else
        case fdiv generation total_power of
          Inl _ \<Rightarrow> \<lparr>solar = 0, grid = 0\<rparr>
        | Inr q \<Rightarrow>
           (let solar_percentage = fmul q (Fin 100) in
            if fgt consumption generation then
              (case fdiv (fsub consumption generation) total_power of
                 Inl _ \<Rightarrow> \<lparr>solar = 0, grid = 0\<rparr>
               | Inr r \<Rightarrow>
                  \<lparr>solar = safe_float (Some solar_percentage),
                   grid = safe_float (Some (fmul (pymax (Fin 0) r) (Fin 100)))\<rparr>)
            else \<lparr>solar = safe_float (Some solar_percentage),
                  grid = safe_float (Some (Fin 0))\<rparr>))"

section \<open>The dataset\<close>

text \<open>
  The snapshot is read with \<open>json.load\<close>, which accepts the tokens \<open>NaN\<close> and
  \<open>Infinity\<close>. A numeric entry of a row is therefore \<open>null\<close> or a float. The
  \<open>hour\<close> entry is written by the ingestion pipeline as an integer; \<open>None\<close> stands
  for a row whose \<open>hour\<close> is missing or \<open>null\<close> (\<open>d.get('hour')\<close> cannot tell the
  two apart). A key missing from \<open>self.data\<close> yields the empty list, as the chained
  \<open>get\<close> calls of the source do.
\<close>

datatype json = JNull | JNum pyfloat

record row =
  row_hour :: "int option"
  row_fields :: "string \<rightharpoonup> json"

record dataset =
  plant_1_hourly :: "row list"
  plant_2_hourly :: "row list"
  demand_data :: "row list"

text \<open>\<open>d.get(key, 0)\<close>\<close>

definition row_get :: "row \<Rightarrow> string \<Rightarrow> json" where
  "row_get d key = (case row_fields d key of None \<Rightarrow> JNum (Fin 0) | Some v \<Rightarrow> v)"

definition hour_rows :: "int \<Rightarrow> row list \<Rightarrow> row list" where
  "hour_rows h ds = filter (\<lambda>d. row_hour d = Some h) ds"

text \<open>\<open>sum(xs)\<close> adds from the left, starting at 0.\<close>

definition py_sum :: "pyfloat list \<Rightarrow> pyfloat" where
  "py_sum xs = foldl fadd (Fin 0) xs"

section \<open>Current generation\<close>

text \<open>
  \<open>[d.get('AC_POWER', 0) for d in rows if d.get('AC_POWER', 0) > 0]\<close>: comparing
  \<open>None\<close> with a number raises TypeError.
\<close>

fun positive_powers :: "row list \<Rightarrow> pyerror + pyfloat list" where
  "positive_powers [] = Inr []"
| "positive_powers (d # ds) =
     (case row_get d ''AC_POWER'' of
        JNull \<Rightarrow> Inl TypeError
      | JNum x \<Rightarrow>
         (case positive_powers ds of
            Inl e \<Rightarrow> Inl e
          | Inr ps \<Rightarrow> Inr (if fgt x (Fin 0) then x # ps else ps)))"

text \<open>
  The average of one plant, written twice in the source (for \<open>plant_1\<close> and for
  \<open>plant_2\<close>): 0 when the plant has no row at the hour or no positive power there.
\<close>

definition plant_avg :: "row list \<Rightarrow> pyerror + pyfloat" where
  "plant_avg plant_hour_data =
     (if plant_hour_data = [] then Inr (Fin 0)
      else case positive_powers plant_hour_data of
             Inl e \<Rightarrow> Inl e
           | Inr powers \<Rightarrow>
              if powers = [] then Inr (Fin 0)
              else fdiv (py_sum powers) (Fin (real (length powers))))"

text \<open>\<open>_calculate_real_generation\<close>: no handler, an exception reaches the caller.\<close>

definition calculate_real_generation :: "int \<Rightarrow> row list \<Rightarrow> row list \<Rightarrow> pyerror + real" where
  "calculate_real_generation hour plant_1_data plant_2_data =
     (if plant_1_data = [] \<or> plant_2_data = [] then Inr 0
      else case plant_avg (hour_rows hour plant_1_data) of
             Inl e \<Rightarrow> Inl e
           | Inr plant_1_avg \<Rightarrow>
              (case plant_avg (hour_rows hour plant_2_data) of
                 Inl e \<Rightarrow> Inl e
               | Inr plant_2_avg \<Rightarrow> Inr (safe_float (Some (fadd plant_1_avg plant_2_avg)))))"

text \<open>
  \<open>get_current_generation\<close> repeats the same statements inside a \<open>try\<close> block whose
  handler returns 0.0; \<open>current_hour\<close> is \<open>datetime.now().hour\<close>.
\<close>

definition get_current_generation :: "dataset \<Rightarrow> int \<Rightarrow> real" where
  "get_current_generation data current_hour =
     (if plant_1_hourly data = [] \<or> plant_2_hourly data = [] then 0
      else case plant_avg (hour_rows current_hour (plant_1_hourly data)) of
             Inl e \<Rightarrow> 0
           | Inr plant_1_avg \<Rightarrow>
              (case plant_avg (hour_rows current_hour (plant_2_hourly data)) of
                 Inl e \<Rightarrow> 0
               | Inr plant_2_avg \<Rightarrow> safe_float (Some (fadd plant_1_avg plant_2_avg))))"

text \<open>
  The generation as the specification words it: per plant, the average of the positive
  \<open>AC_POWER\<close> values of the rows at the hour, 0 for a plant without such rows; the sum
  of the two plants, unscaled.
\<close>

definition positive_ac :: "int \<Rightarrow> row list \<Rightarrow> real list" where
  "positive_ac h ds =
     concat (map (\<lambda>d. case row_get d ''AC_POWER'' of
                        JNum (Fin x) \<Rightarrow> (if x > 0 then [x] else [])
                      | _ \<Rightarrow> [])
                 (hour_rows h ds))"

definition average :: "real list \<Rightarrow> real" where
  "average xs = (if xs = [] then 0 else sum_list xs / real (length xs))"

definition generation_spec :: "dataset \<Rightarrow> int \<Rightarrow> real" where
  "generation_spec data h =
     average (positive_ac h (plant_1_hourly data)) + average (positive_ac h (plant_2_hourly data))"

text \<open>An \<open>AC_POWER\<close> entry that is a number other than +Infinity (or is absent).\<close>

fun usable_power :: "json \<Rightarrow> bool" where
  "usable_power JNull = False"
| "usable_power (JNum PInf) = False"
| "usable_power (JNum _) = True"

definition usable_powers :: "int \<Rightarrow> row list \<Rightarrow> bool" where
  "usable_powers h ds = list_all (\<lambda>d. usable_power (row_get d ''AC_POWER'')) (hour_rows h ds)"

section \<open>Solar efficiency\<close>

text \<open>
  \<open>load_solar_plant_data\<close> derives
  \<open>efficiency = (AC_POWER / DC_POWER).fillna(0)\<close> on pandas columns. The division is
  elementwise IEEE division, which does not raise: a non-zero value over zero is an
  infinity, zero over zero is NaN. \<open>fillna(0)\<close> replaces NaN (the missing value of a
  float column) and nothing else.
\<close>

fun np_div :: "pyfloat \<Rightarrow> pyfloat \<Rightarrow> pyfloat" where
  "np_div NaN _ = NaN"
| "np_div _ NaN = NaN"
| "np_div a (Fin b) =
     (if b = 0 then of_sign (fsign a)
      else case a of Fin x \<Rightarrow> Fin (x / b) | _ \<Rightarrow> of_sign (fsign a * fsign (Fin b)))"
| "np_div (Fin a) _ = Fin 0"
| "np_div _ _ = NaN"

definition fillna0 :: "pyfloat \<Rightarrow> pyfloat" where
  "fillna0 x = (if x = NaN then Fin 0 else x)"

definition efficiency :: "pyfloat \<Rightarrow> pyfloat \<Rightarrow> pyfloat" where
  "efficiency ac_power dc_power = fillna0 (np_div ac_power dc_power)"

section \<open>Community configuration\<close>

text \<open>
  A \<open>CommunityConfigDocument\<close> is an object whose attributes are read and written by
  name (\<open>hasattr\<close>, \<open>setattr\<close>), so it is modelled as a function from attribute names
  to values. Every value is a number; the two timestamps are numbers too. An
  integer-typed field holds what is assigned to it (assignment converts nothing; the
  update request converts before it assigns, see below). The \<open>id\<close> attribute carries
  no value that the operations below read.

  Each entry of the table is a declared field with its default and, where the field is
  declared with \<open>ge\<close>/\<open>le\<close>, its bounds.
\<close>

type_synonym config = "string \<Rightarrow> real"

type_synonym bounds = "real \<times> real option"

definition document_fields :: "(string \<times> real \<times> bounds option) list" where
  "document_fields =
    [(''total_households'', 500, Some (1, Some 10000)),
     (''average_household_size'', 2.5, Some (1, Some 10)),
     (''total_population'', 1250, None),
     (''households_with_solar'', 300, Some (0, None)),
     (''average_solar_capacity_per_household'', 8, Some (0, Some 50)),
     (''total_solar_capacity'', 2400, None),
     (''solar_panel_efficiency'', 0.20, Some (0.1, Some 0.5)),
     (''solar_panel_area_per_household'', 40, Some (0, Some 200)),
     (''total_solar_area'', 12000, None),
     (''average_household_consumption'', 3.5, Some (0, Some 20)),
     (''peak_household_consumption'', 7, Some (0, Some 50)),
     (''total_community_consumption'', 1750, None),
     (''regional_to_community_scaling'', 0.0001, Some (0.00001, Some 0.01)),
     (''demand_scaling_factor'', 0.25, Some (0.01, Some 1)),
     (''generation_scaling_factor'', 1, Some (0.1, Some 5)),
     (''grid_import_capacity'', 2000, Some (0, Some 10000)),
     (''grid_export_capacity'', 1500, Some (0, Some 10000)),
     (''grid_stability_threshold'', 0.9, Some (0.5, Some 1)),
     (''battery_capacity_per_household'', 10, Some (0, Some 100)),
     (''total_battery_capacity'', 5000, None),
     (''battery_efficiency'', 0.95, Some (0.5, Some 1)),
     (''trading_volume_percentage'', 0.1, Some (0, Some 1)),
     (''price_fluctuation_range'', 0.12, Some (0, Some 1)),
     (''average_energy_price'', 0.25, Some (0, Some 2)),
     (''battery_distribution_north'', 0.4, Some (0, Some 1)),
     (''battery_distribution_south'', 0.35, Some (0, Some 1)),
     (''battery_distribution_center'', 0.25, Some (0, Some 1)),
     (''contribution_tier_gold'', 0.15, Some (0, Some 1)),
     (''contribution_tier_silver'', 0.35, Some (0, Some 1)),
     (''contribution_tier_bronze'', 0.50, Some (0, Some 1)),
     (''mock_trader_volume'', 1500, Some (0, Some 10000)),
     (''mock_solar_farm_production'', 2500, Some (0, Some 10000)),
     (''mock_efficiency_high'', 0.95, Some (0, Some 1)),
     (''mock_efficiency_medium'', 0.92, Some (0, Some 1)),
     (''mock_carbon_offset'', 500, Some (0, Some 10000)),
     (''fallback_regional_scaling'', 0.001, Some (0.0001, Some 0.01))]"

definition in_bounds :: "real \<Rightarrow> bounds \<Rightarrow> bool" where
  "in_bounds v bd = (fst bd \<le> v \<and> (case snd bd of None \<Rightarrow> True | Some hi \<Rightarrow> v \<le> hi))"

text \<open>\<open>CommunityConfigDocument()\<close>: the defaults, version 1, both timestamps now.\<close>

definition new_document :: "real \<Rightarrow> config" where
  "new_document now =
     (\<lambda>k. if k = ''created_at'' \<or> k = ''updated_at'' then now
          else if k = ''version'' then 1
          else case map_of document_fields k of Some (dflt, _) \<Rightarrow> dflt | None \<Rightarrow> 0)"

text \<open>
  \<open>CommunityConfigDocument(**config_doc)\<close>: the constructor validates the declared
  bounds and raises when one is violated.
\<close>

definition document_valid :: "config \<Rightarrow> bool" where
  "document_valid c =
     list_all (\<lambda>(name, dflt, b). case b of None \<Rightarrow> True | Some bd \<Rightarrow> in_bounds (c name) bd)
       document_fields"

text \<open>\<open>int(x)\<close> truncates towards zero.\<close>

definition py_int :: "real \<Rightarrow> real" where
  "py_int x = (if 0 \<le> x then of_int \<lfloor>x\<rfloor> else of_int \<lceil>x\<rceil>)"

definition calculate_derived_values :: "config \<Rightarrow> config" where
  "calculate_derived_values c =
     (let c1 = c(''total_population'' :=
                   py_int (c ''total_households'' * c ''average_household_size''));
          c2 = c1(''total_solar_capacity'' :=
                   c1 ''households_with_solar'' * c1 ''average_solar_capacity_per_household'');
          c3 = c2(''total_solar_area'' :=
                   c2 ''households_with_solar'' * c2 ''solar_panel_area_per_household'');
          c4 = c3(''total_community_consumption'' :=
                   c3 ''total_households'' * c3 ''average_household_consumption'')
      in c4(''total_battery_capacity'' :=
                   c4 ''total_households'' * c4 ''battery_capacity_per_household''))"

text \<open>
  The loop of \<open>update_and_calculate\<close> over the keyword arguments, in their order. The
  object is changed in place, so the attributes set before an exception stay set: the
  function returns the object as the loop leaves it, with the exception if one was raised.
  \<open>hasattr\<close> holds for the declared fields and the four metadata attributes. (It also
  holds for the methods of the class; assigning to one of those raises ValueError as
  well, inside \<open>setattr\<close>.)
\<close>

definition attribute_names :: "string list" where
  "attribute_names =
     map fst document_fields @ [''id'', ''created_at'', ''updated_at'', ''version'']"

definition protected_names :: "string list" where
  "protected_names = [''id'', ''created_at'', ''version'']"

fun set_attributes :: "config \<Rightarrow> (string \<times> real) list \<Rightarrow> pyerror option \<times> config" where
  "set_attributes c [] = (None, c)"
| "set_attributes c ((key, v) # kwargs) =
     (if key \<in> set attribute_names \<and> key \<notin> set protected_names
      then set_attributes (c(key := v)) kwargs
      else if key \<notin> set protected_names then (Some (ValueError key), c)
      else set_attributes c kwargs)"

definition update_and_calculate ::
  "config \<Rightarrow> (string \<times> real) list \<Rightarrow> real \<Rightarrow> pyerror option \<times> config" where
  "update_and_calculate c kwargs now =
     (case set_attributes c kwargs of
        (Some e, c') \<Rightarrow> (Some e, c')
      | (None, c') \<Rightarrow> (None, (calculate_derived_values c')(''updated_at'' := now)))"

section \<open>The configuration manager and the service instance\<close>

text \<open>
  Configuration objects live in a store, since the manager and the presentation service
  hold references to the same object and the manager changes it in place. The state
  holds the store, the manager's \<open>_config_cache\<close>, the singleton document of the
  database collection, the \<open>_config\<close> attribute of one \<open>DataPresentationService\<close>
  instance, and two facts of the environment that the operations read: whether the
  database answers, and the current UTC time.
\<close>

record sys =
  heap :: "nat \<Rightarrow> config"
  next_ref :: nat
  config_cache :: "nat option"
  db_doc :: "config option"
  db_up :: bool
  utc_now :: real
  svc_config :: "nat option"

definition alloc :: "config \<Rightarrow> sys \<Rightarrow> nat \<times> sys" where
  "alloc c s = (next_ref s, s\<lparr>heap := (heap s)(next_ref s := c), next_ref := Suc (next_ref s)\<rparr>)"

text \<open>\<open>_save_config\<close>: upsert of every field of the object; raises when the database fails.\<close>

definition save_config :: "nat \<Rightarrow> sys \<Rightarrow> pyerror option \<times> sys" where
  "save_config a s =
     (if db_up s then (None, s\<lparr>db_doc := Some (heap s a)\<rparr>) else (Some DatabaseError, s))"

text \<open>\<open>_load_config\<close>: any exception is answered with a fresh default object.\<close>

definition load_config :: "sys \<Rightarrow> nat \<times> sys" where
  "load_config s =
     (if db_up s then
        (case db_doc s of
           Some d \<Rightarrow>
             if document_valid d then alloc d s else alloc (new_document (utc_now s)) s
         | None \<Rightarrow>
            (case alloc (new_document (utc_now s)) s of
               (a, s1) \<Rightarrow>
                 (case save_config a s1 of
                    (None, s2) \<Rightarrow> (a, s2)
                  | (Some e, s2) \<Rightarrow> alloc (new_document (utc_now s2)) s2)))
      else alloc (new_document (utc_now s)) s)"

definition get_config :: "sys \<Rightarrow> nat \<times> sys" where
  "get_config s =
     (case config_cache s of
        Some a \<Rightarrow> (a, s)
      | None \<Rightarrow> (case load_config s of (a, s') \<Rightarrow> (a, s'\<lparr>config_cache := Some a\<rparr>)))"

text \<open>
  \<open>update_config\<close>: the object returned by \<open>get_config\<close> is the cached one, and
  \<open>update_and_calculate\<close> changes it in place before anything is saved.
\<close>

definition update_config :: "(string \<times> real) list \<Rightarrow> sys \<Rightarrow> pyerror option \<times> sys" where
  "update_config kwargs s =
     (case get_config s of
        (a, s1) \<Rightarrow>
          (case update_and_calculate (heap s1 a) kwargs (utc_now s1) of
             (err, c') \<Rightarrow>
               (let s2 = s1\<lparr>heap := (heap s1)(a := c')\<rparr> in
                case err of
                  Some e \<Rightarrow> (Some e, s2)
                | None \<Rightarrow>
                   (case save_config a s2 of
                      (Some e, s3) \<Rightarrow> (Some e, s3)
                    | (None, s3) \<Rightarrow> (None, s3\<lparr>config_cache := Some a\<rparr>)))))"

definition reset_config :: "sys \<Rightarrow> pyerror option \<times> sys" where
  "reset_config s =
     (case alloc (new_document (utc_now s)) s of
        (a, s1) \<Rightarrow>
          (case save_config a s1 of
             (Some e, s2) \<Rightarrow> (Some e, s2)
           | (None, s2) \<Rightarrow> (None, s2\<lparr>config_cache := Some a\<rparr>)))"

text \<open>\<open>DataPresentationService._get_config\<close>: the reference is fetched once and kept.\<close>

definition svc_get_config :: "sys \<Rightarrow> nat \<times> sys" where
  "svc_get_config s =
     (case svc_config s of
        Some a \<Rightarrow> (a, s)
      | None \<Rightarrow> (case get_config s of (a, s') \<Rightarrow> (a, s'\<lparr>svc_config := Some a\<rparr>)))"

section \<open>The update request\<close>

text \<open>
  \<open>CommunityConfigUpdate\<close>: the fields a request may set, in declaration order, each
  with its bounds. The request body is a JSON object. A key of the body that the schema
  does not declare is ignored, a declared field that is absent or \<open>null\<close> is \<open>None\<close>.
\<close>

definition update_schema :: "(string \<times> bounds) list" where
  "update_schema =
    [(''total_households'', (1, Some 10000)),
     (''average_household_size'', (1, Some 10)),
     (''households_with_solar'', (0, None)),
     (''average_solar_capacity_per_household'', (0, Some 50)),
     (''solar_panel_efficiency'', (0.1, Some 0.5)),
     (''solar_panel_area_per_household'', (0, Some 200)),
     (''average_household_consumption'', (0, Some 20)),
     (''peak_household_consumption'', (0, Some 50)),
     (''regional_to_community_scaling'', (0.00001, Some 0.01)),
     (''demand_scaling_factor'', (0.01, Some 1)),
     (''grid_import_capacity'', (0, Some 10000)),
     (''grid_export_capacity'', (0, Some 10000)),
     (''grid_stability_threshold'', (0.5, Some 1)),
     (''battery_capacity_per_household'', (0, Some 100)),
     (''battery_efficiency'', (0.5, Some 1)),
     (''trading_volume_percentage'', (0, Some 1)),
     (''price_fluctuation_range'', (0, Some 1)),
     (''average_energy_price'', (0, Some 2)),
     (''battery_distribution_north'', (0, Some 1)),
     (''battery_distribution_south'', (0, Some 1)),
     (''battery_distribution_center'', (0, Some 1)),
     (''contribution_tier_gold'', (0, Some 1)),
     (''contribution_tier_silver'', (0, Some 1)),
     (''contribution_tier_bronze'', (0, Some 1)),
     (''mock_trader_volume'', (0, Some 10000)),
     (''mock_solar_farm_production'', (0, Some 10000)),
     (''mock_efficiency_high'', (0, Some 1)),
     (''mock_efficiency_medium'', (0, Some 1)),
     (''mock_carbon_offset'', (0, Some 10000)),
     (''fallback_regional_scaling'', (0.0001, Some 0.01))]"

type_synonym body = "string \<rightharpoonup> json"

text \<open>
  The two fields declared \<open>Optional[int]\<close>. The source uses the interface of
  pydantic 1, which converts a number given for such a field with \<open>int\<close> before the
  bounds are checked; the other fields are floats and keep their value.
\<close>

definition integer_fields :: "string list" where
  "integer_fields = [''total_households'', ''households_with_solar'']"

definition coerce :: "string \<Rightarrow> real \<Rightarrow> real" where
  "coerce name v = (if name \<in> set integer_fields then py_int v else v)"

text \<open>
  The check of one field against its \<open>ge\<close>/\<open>le\<close> bounds. NaN fails every comparison
  (and the conversion to \<open>int\<close>); an infinity fails the upper bound, or the conversion
  to \<open>int\<close> of the one field that has none.
\<close>

fun field_ok :: "string \<Rightarrow> json option \<Rightarrow> bounds \<Rightarrow> bool" where
  "field_ok name None bd = True"
| "field_ok name (Some JNull) bd = True"
| "field_ok name (Some (JNum (Fin v))) bd = in_bounds (coerce name v) bd"
| "field_ok name (Some (JNum _)) bd = False"

text \<open>The value of a field after parsing, \<open>None\<close> when absent or \<open>null\<close>.\<close>

definition field_value :: "body \<Rightarrow> string \<Rightarrow> real option" where
  "field_value b name =
     (case b name of Some (JNum (Fin v)) \<Rightarrow> Some (coerce name v) | _ \<Rightarrow> None)"

text \<open>The value of a field that passed its own check.\<close>

definition checked_value :: "body \<Rightarrow> string \<Rightarrow> real option" where
  "checked_value b name =
     (case map_of update_schema name of
        Some bd \<Rightarrow> if field_ok name (b name) bd then field_value b name else None
      | None \<Rightarrow> None)"

text \<open>
  The two \<open>@validator\<close> methods. Each runs on a value that passed its bounds and sees
  the earlier fields that were validated.
\<close>

definition validator_ok :: "body \<Rightarrow> string \<Rightarrow> bool" where
  "validator_ok b name =
     (if name = ''households_with_solar'' then
        (case (checked_value b name, checked_value b ''total_households'') of
           (Some v, Some households) \<Rightarrow> \<not> v > households
         | _ \<Rightarrow> True)
      else if name = ''peak_household_consumption'' then
        (case (checked_value b name, checked_value b ''average_household_consumption'') of
           (Some v, Some avg) \<Rightarrow> \<not> v < avg
         | _ \<Rightarrow> True)
      else True)"

definition field_errors :: "body \<Rightarrow> string list" where
  "field_errors b =
     map fst (filter (\<lambda>(name, bd). \<not> (field_ok name (b name) bd \<and> validator_ok b name))
                update_schema)"

text \<open>
  Parsing the body into \<open>CommunityConfigUpdate\<close>: the list of the fields in error, or
  \<open>update_data\<close>, the fields that are not \<open>None\<close> in declaration order.
\<close>

definition validate_update :: "body \<Rightarrow> string list + (string \<times> real) list" where
  "validate_update b =
     (if field_errors b \<noteq> [] then Inl (field_errors b)
      else Inr (concat (map (\<lambda>(name, bd). case field_value b name of
                                               None \<Rightarrow> []
                                             | Some v \<Rightarrow> [(name, v)])
                          update_schema)))"

datatype response = Ok config | Unprocessable "string list" | BadRequest | ServerError

text \<open>
  \<open>PUT /config\<close>. A body that fails validation is answered before the handler runs
  (422, with the fields in error). In the handler, the \<open>HTTPException\<close> raised for an
  empty update is caught by the handler's own \<open>except Exception\<close> and becomes a 500.
  \<open>get_community_metrics\<close> divides by \<open>total_households\<close>.
\<close>

definition update_community_config :: "body \<Rightarrow> sys \<Rightarrow> response \<times> sys" where
  "update_community_config b s =
     (case validate_update b of
        Inl errs \<Rightarrow> (Unprocessable errs, s)
      | Inr update_data \<Rightarrow>
          if update_data = [] then (ServerError, s)
          else
            (case update_config update_data s of
               (Some (ValueError k), s1) \<Rightarrow> (BadRequest, s1)
             | (Some _, s1) \<Rightarrow> (ServerError, s1)
             | (None, s1) \<Rightarrow>
                (case get_config s1 of
                   (a, s2) \<Rightarrow>
                     if heap s2 a ''total_households'' = 0 then (ServerError, s2)
                     else (Ok (heap s2 a), s2))))"


section \<open>Current consumption and hour interpolation\<close>

definition regions :: "string list" where
  "regions = [''Calabria'', ''Sardegna'', ''Sicilia'', ''North'', ''Central-northern Italy'',
              ''Centeral-southern Italy'', ''Southern-Italy'']"

text \<open>
  The body of the loop over the regions: a value that is \<open>None\<close> or NaN
  (\<open>value != value\<close>) is skipped, any other is added.
\<close>

definition add_region :: "row \<Rightarrow> pyfloat \<Rightarrow> string \<Rightarrow> pyfloat" where
  "add_region period_data regional_demand region =
     (case row_get period_data region of
        JNull \<Rightarrow> regional_demand
      | JNum v \<Rightarrow> if v = NaN then regional_demand else fadd regional_demand v)"

definition regional_demand :: "row \<Rightarrow> pyfloat" where
  "regional_demand period_data = foldl (add_region period_data) (Fin 0) regions"

text \<open>The body of the loop over the records, on \<open>(total_demand_mw, valid_periods)\<close>.\<close>

definition add_period :: "pyfloat \<times> nat \<Rightarrow> row \<Rightarrow> pyfloat \<times> nat" where
  "add_period acc period_data =
     (if fgt (regional_demand period_data) (Fin 0)
      then (fadd (fst acc) (regional_demand period_data), Suc (snd acc))
      else acc)"

definition demand_totals :: "row list \<Rightarrow> pyfloat \<times> nat" where
  "demand_totals ds = foldl add_period (Fin 0, 0) ds"

text \<open>\<open>_get_hour_consumption\<close>: the configuration is fetched only when a record counts.\<close>

definition get_hour_consumption :: "int \<Rightarrow> row list \<Rightarrow> sys \<Rightarrow> (pyerror + real) \<times> sys" where
  "get_hour_consumption hour demand s =
     (let hour_data = hour_rows hour demand in
      if hour_data = [] then (Inr 0, s)
      else
        (case demand_totals hour_data of
           (total_demand_mw, valid_periods) \<Rightarrow>
             if valid_periods > 0 then
               (case fdiv total_demand_mw (Fin (real valid_periods)) of
                  Inl e \<Rightarrow> (Inl e, s)
                | Inr avg_demand_mw \<Rightarrow>
                   (case svc_get_config s of
                      (config, s') \<Rightarrow>
                        (Inr (safe_float (Some
                           (fmul (fmul avg_demand_mw (Fin 1000))
                              (Fin (heap s' config ''regional_to_community_scaling''))))), s')))
             else (Inr 0, s)))"

text \<open>
  The scan of \<open>_interpolate_consumption\<close> over the sorted hours: \<open>before_hour\<close> is
  overwritten by every smaller hour, the first greater hour becomes \<open>after_hour\<close> and
  ends the loop.
\<close>

fun nearest_hours :: "int \<Rightarrow> int list \<Rightarrow> int option \<Rightarrow> int option \<times> int option" where
  "nearest_hours target_hour [] before_hour = (before_hour, None)"
| "nearest_hours target_hour (h # hs) before_hour =
     (if h < target_hour then nearest_hours target_hour hs (Some h)
      else if h > target_hour then (before_hour, Some h)
      else nearest_hours target_hour hs before_hour)"

definition available_hours :: "row list \<Rightarrow> int list" where
  "available_hours demand = sort (List.map_filter row_hour demand)"

definition interpolate_consumption :: "int \<Rightarrow> row list \<Rightarrow> sys \<Rightarrow> (pyerror + real) \<times> sys" where
  "interpolate_consumption target_hour demand s =
     (if available_hours demand = [] then (Inr 0, s)
      else
        (case nearest_hours target_hour (available_hours demand) None of
           (None, Some after_hour) \<Rightarrow> get_hour_consumption after_hour demand s
         | (Some before_hour, None) \<Rightarrow> get_hour_consumption before_hour demand s
         | (None, None) \<Rightarrow> (Inr 0, s)
         | (Some before_hour, Some after_hour) \<Rightarrow>
            (case get_hour_consumption before_hour demand s of
               (Inl e, s1) \<Rightarrow> (Inl e, s1)
             | (Inr before_consumption, s1) \<Rightarrow>
                (case get_hour_consumption after_hour demand s1 of
                   (Inl e, s2) \<Rightarrow> (Inl e, s2)
                 | (Inr after_consumption, s2) \<Rightarrow>
                    if after_hour = before_hour then (Inr before_consumption, s2)
                    else
                      (case fdiv (Fin (of_int (target_hour - before_hour)))
                                 (Fin (of_int (after_hour - before_hour))) of
                         Inl e \<Rightarrow> (Inl e, s2)
                       | Inr weight \<Rightarrow>
                          (Inr (safe_float (Some
                             (fadd (Fin before_consumption)
                                (fmul weight
                                   (fsub (Fin after_consumption) (Fin before_consumption)))))),
                           s2))))))"

text \<open>
  \<open>get_current_consumption\<close>; \<open>current_hour\<close> is \<open>datetime.now().hour\<close>. The
  handler of the \<open>try\<close> block returns 0.0 for any exception.
\<close>

definition get_current_consumption :: "dataset \<Rightarrow> int \<Rightarrow> sys \<Rightarrow> real \<times> sys" where
  "get_current_consumption data current_hour s =
     (if demand_data data = [] then (0, s)
      else
        (let current_hour_data = hour_rows current_hour (demand_data data) in
         if current_hour_data = [] then
           (case interpolate_consumption current_hour (demand_data data) s of
              (Inl e, s') \<Rightarrow> (0, s')
            | (Inr v, s') \<Rightarrow> (v, s'))
         else
           (case demand_totals current_hour_data of
              (total_demand_mw, valid_periods) \<Rightarrow>
                if valid_periods > 0 then
                  (case fdiv total_demand_mw (Fin (real valid_periods)) of
                     Inl e \<Rightarrow> (0, s)
                   | Inr avg_demand_mw \<Rightarrow>
                      (case svc_get_config s of
                         (config, s') \<Rightarrow>
                           (safe_float (Some
                              (fmul (fmul avg_demand_mw (Fin 1000))
                                 (Fin (heap s' config ''regional_to_community_scaling'')))),
                            s')))
                else (0, s))))"

text \<open>
  The scaling factor a query reads in state \<open>s\<close>: the attribute of the object that
  \<open>_get_config\<close> returns there.
\<close>

definition scaling_read :: "sys \<Rightarrow> real" where
  "scaling_read s =
     (case svc_get_config s of (config, s') \<Rightarrow> heap s' config ''regional_to_community_scaling'')"

text \<open>
  The consumption as the specification words it. The regional demand of a record is the
  sum of its region values, a value that is absent, \<open>null\<close> or NaN contributing
  nothing; the records with a positive regional demand are kept and averaged (the
  average of no record is 0).
\<close>

definition region_value :: "row \<Rightarrow> string \<Rightarrow> real" where
  "region_value d region =
     (case row_fields d region of Some (JNum (Fin x)) \<Rightarrow> x | _ \<Rightarrow> 0)"

definition regional_demand_spec :: "row \<Rightarrow> real" where
  "regional_demand_spec d = sum_list (map (region_value d) regions)"

definition avg_mw_spec :: "int \<Rightarrow> row list \<Rightarrow> real" where
  "avg_mw_spec h demand =
     average (filter (\<lambda>x. x > 0) (map regional_demand_spec (hour_rows h demand)))"

text \<open>No region value of the record is an infinity.\<close>

definition finite_regions :: "row \<Rightarrow> bool" where
  "finite_regions d =
     list_all (\<lambda>region. row_fields d region \<noteq> Some (JNum PInf)
                       \<and> row_fields d region \<noteq> Some (JNum NInf)) regions"

text \<open>Every region value of the record is \<open>null\<close> or NaN (or absent).\<close>

definition null_regions :: "row \<Rightarrow> bool" where
  "null_regions d =
     list_all (\<lambda>region. row_fields d region = None \<or> row_fields d region = Some JNull
                       \<or> row_fields d region = Some (JNum NaN)) regions"

section \<open>Notions used in the statements, and example data\<close>

text \<open>The hours that have a record, and the nearest of them on each side of a target.\<close>

definition hours_with_data :: "row list \<Rightarrow> int set" where
  "hours_with_data demand = set (List.map_filter row_hour demand)"

definition nearest_below :: "row list \<Rightarrow> int \<Rightarrow> int \<Rightarrow> bool" where
  "nearest_below demand t b =
     (b \<in> hours_with_data demand \<and> b < t
      \<and> (\<forall>h \<in> hours_with_data demand. h < t \<longrightarrow> h \<le> b))"

definition nearest_above :: "row list \<Rightarrow> int \<Rightarrow> int \<Rightarrow> bool" where
  "nearest_above demand t a =
     (a \<in> hours_with_data demand \<and> t < a
      \<and> (\<forall>h \<in> hours_with_data demand. t < h \<longrightarrow> a \<le> h))"

definition none_below :: "row list \<Rightarrow> int \<Rightarrow> bool" where
  "none_below demand t = (\<forall>h \<in> hours_with_data demand. \<not> h < t)"

definition none_above :: "row list \<Rightarrow> int \<Rightarrow> bool" where
  "none_above demand t = (\<forall>h \<in> hours_with_data demand. \<not> t < h)"

text \<open>
  The service instance and the manager agree: the instance holds no reference yet, or
  it holds the object that the manager has cached.
\<close>

definition in_sync :: "sys \<Rightarrow> bool" where
  "in_sync s = (svc_config s = None \<or> svc_config s = config_cache s)"

text \<open>
  A process that has just started, with an empty collection and a database that answers;
  the same process after the manager has loaded the configuration.
\<close>

definition fresh_sys :: sys where
  "fresh_sys = \<lparr>heap = (\<lambda>a k. 0), next_ref = 0, config_cache = None, db_doc = None,
                db_up = True, utc_now = 0, svc_config = None\<rparr>"

definition loaded_sys :: sys where
  "loaded_sys = snd (get_config fresh_sys)"

definition solar_row :: "int \<Rightarrow> real \<Rightarrow> row" where
  "solar_row h p = \<lparr>row_hour = Some h, row_fields = [''AC_POWER'' \<mapsto> JNum (Fin p)]\<rparr>"

definition demand_row :: "int \<Rightarrow> (string \<times> json) list \<Rightarrow> row" where
  "demand_row h kvs = \<lparr>row_hour = Some h, row_fields = map_of kvs\<rparr>"

definition one_plant_data :: dataset where
  "one_plant_data = \<lparr>plant_1_hourly = [solar_row 12 500], plant_2_hourly = [],
                      demand_data = []\<rparr>"

definition two_plant_data :: dataset where
  "two_plant_data =
     \<lparr>plant_1_hourly = [solar_row 12 500, solar_row 12 300, solar_row 12 0, solar_row 3 0],
      plant_2_hourly = [solar_row 12 100, solar_row 13 50],
      demand_data = []\<rparr>"

definition two_hours :: "row list" where
  "two_hours = [demand_row 6 [(''North'', JNum (Fin 1000))],
                demand_row 10 [(''North'', JNum (Fin 1500)), (''Sicilia'', JNum (Fin 500)),
                               (''Calabria'', JNum NaN)]]"

definition only_ten :: "row list" where
  "only_ten = [demand_row 10 [(''North'', JNum (Fin 2000))]]"

definition noon_data :: dataset where
  "noon_data = \<lparr>plant_1_hourly = [], plant_2_hourly = [],
                 demand_data = [demand_row 12 [(''North'', JNum (Fin 1000))]]\<rparr>"


definition null_data :: dataset where
  "null_data =
     \<lparr>plant_1_hourly = [], plant_2_hourly = [],
      demand_data = [demand_row 12 [(''North'', JNull), (''Sicilia'', JNum NaN)],
                     demand_row 9 [(''Calabria'', JNum NaN)]]\<rparr>"



definition scaling_body :: body where
  "scaling_body = [''regional_to_community_scaling'' \<mapsto> JNum (Fin (1 / 200))]"

text \<open>
  The process after one consumption query of the service instance followed by
  \<open>reset_config\<close>.
\<close>

definition stale_sys :: sys where
  "stale_sys = snd (reset_config (snd (get_current_consumption noon_data 12 fresh_sys)))"

section \<open>Properties of the safe-float normalisation\<close>



section \<open>Properties of the source breakdown\<close>

lemma breakdown_finite:
  "get_energy_source_breakdown (Fin g) (Fin c) =
     (if max g c \<le> 0 then \<lparr>solar = 0, grid = 0\<rparr>
      else \<lparr>solar = g / max g c * 100,
            grid = (if c > g then (c - g) / max g c * 100 else 0)\<rparr>)"
  by (auto simp: get_energy_source_breakdown_def pymax_def fgt_def fle_def fsub_def Let_def
      max_def)

text \<open>
  C7. For every pair of numbers (generation, consumption), with total the larger of the
  two: when total is not positive the breakdown is solar 0 and grid 0, and nothing is
  divided; otherwise solar is generation / total * 100, and grid is
  (consumption - generation) / total * 100 when consumption exceeds generation, else 0.
\<close>

theorem source_breakdown_formula:
  "get_energy_source_breakdown (Fin generation) (Fin consumption) =
     (let total = max generation consumption in
      if total \<le> 0 then \<lparr>solar = 0, grid = 0\<rparr>
      else \<lparr>solar = generation / total * 100,
            grid = (if consumption > generation
                    then (consumption - generation) / total * 100 else 0)\<rparr>)"
  by (simp add: breakdown_finite Let_def)

theorem source_breakdown_formula_witness:
  "get_energy_source_breakdown (Fin 0) (Fin 0) = \<lparr>solar = 0, grid = 0\<rparr>
   \<and> get_energy_source_breakdown (Fin 500) (Fin 300) = \<lparr>solar = 100, grid = 0\<rparr>
   \<and> get_energy_source_breakdown (Fin 100) (Fin 400) = \<lparr>solar = 25, grid = 75\<rparr>"
  using source_breakdown_formula [of 0 0] source_breakdown_formula [of 500 300]
    source_breakdown_formula [of 100 400]
  by simp



section \<open>Properties of the current generation\<close>

lemma foldl_fadd_Fin: "foldl fadd (Fin a) (map Fin xs) = Fin (a + sum_list xs)"
  by (induction xs arbitrary: a) (simp_all add: add.assoc)

lemma py_sum_Fin: "py_sum (map Fin xs) = Fin (sum_list xs)"
  by (simp add: py_sum_def foldl_fadd_Fin)

lemma positive_powers_usable:
  "list_all (\<lambda>d. usable_power (row_get d ''AC_POWER'')) ds \<Longrightarrow>
   positive_powers ds =
     Inr (map Fin (concat (map (\<lambda>d. case row_get d ''AC_POWER'' of
                        JNum (Fin x) \<Rightarrow> (if x > 0 then [x] else [])
                      | _ \<Rightarrow> []) ds)))"
proof (induction ds)
  case Nil
  then show ?case by simp
next
  case (Cons d ds)
  then have u: "usable_power (row_get d ''AC_POWER'')" by simp
  show ?case
  proof (cases "row_get d ''AC_POWER''")
    case JNull
    with u show ?thesis by simp
  next
    case (JNum x)
    with u Cons show ?thesis by (cases x) (simp_all add: fgt_def)
  qed
qed

lemma plant_avg_usable:
  assumes "usable_powers h ds"
  shows "plant_avg (hour_rows h ds) = Inr (Fin (average (positive_ac h ds)))"
proof -
  have pp: "positive_powers (hour_rows h ds) = Inr (map Fin (positive_ac h ds))"
    using assms positive_powers_usable unfolding usable_powers_def positive_ac_def by blast
  show ?thesis
  proof (cases "positive_ac h ds = []")
    case True
    then show ?thesis by (simp add: plant_avg_def pp average_def)
  next
    case False
    then have "hour_rows h ds \<noteq> []" by (auto simp: positive_ac_def)
    then show ?thesis using False
      by (simp add: plant_avg_def pp average_def py_sum_Fin)
  qed
qed

lemma plant_avg_Nil: "plant_avg [] = Inr (Fin 0)"
  by (simp add: plant_avg_def)

lemma generation_usable:
  assumes "plant_1_hourly data \<noteq> []" and "plant_2_hourly data \<noteq> []"
    and "usable_powers h (plant_1_hourly data)" and "usable_powers h (plant_2_hourly data)"
  shows "get_current_generation data h = generation_spec data h"
  using assms
  by (simp add: get_current_generation_def generation_spec_def plant_avg_usable)

lemma generation_no_rows:
  assumes "hour_rows h (plant_1_hourly data) = []" and "hour_rows h (plant_2_hourly data) = []"
  shows "get_current_generation data h = 0"
  using assms by (simp add: get_current_generation_def plant_avg_Nil)

text \<open>The two copies of the computation agree, but for the handler.\<close>

lemma generation_handler:
  "get_current_generation data h =
     (case calculate_real_generation h (plant_1_hourly data) (plant_2_hourly data) of
        Inl e \<Rightarrow> 0 | Inr v \<Rightarrow> v)"
  by (simp add: get_current_generation_def calculate_real_generation_def split: sum.splits)

lemmas generation_eval = get_current_generation_def generation_spec_def positive_ac_def
  hour_rows_def row_get_def average_def solar_row_def usable_powers_def

text \<open>
  C3, as the code has it. When both plants have a hourly series, and no \<open>AC_POWER\<close>
  entry of a row at the hour is \<open>null\<close> or +Infinity, the current generation is the
  sum over the two plants of the average of the positive \<open>AC_POWER\<close> values of the
  plant's rows at the hour, a plant without such rows contributing 0, and no scaling is
  applied. The generation is 0 when neither plant has a row at the hour. When the hourly
  series of either plant is empty the generation is 0, whatever the other plant holds.
\<close>

theorem generation_sum_of_averages:
  "(plant_1_hourly data \<noteq> [] \<and> plant_2_hourly data \<noteq> []
      \<and> usable_powers h (plant_1_hourly data) \<and> usable_powers h (plant_2_hourly data)
     \<longrightarrow> get_current_generation data h = generation_spec data h)
   \<and> (hour_rows h (plant_1_hourly data) = [] \<and> hour_rows h (plant_2_hourly data) = []
     \<longrightarrow> get_current_generation data h = 0)
   \<and> (plant_1_hourly data = [] \<or> plant_2_hourly data = []
     \<longrightarrow> get_current_generation data h = 0)"
  using generation_usable [of data h] generation_no_rows [of h data]
  by (auto simp: get_current_generation_def)

theorem generation_sum_of_averages_witness:
  "plant_1_hourly two_plant_data \<noteq> [] \<and> plant_2_hourly two_plant_data \<noteq> []
   \<and> usable_powers 12 (plant_1_hourly two_plant_data)
   \<and> usable_powers 12 (plant_2_hourly two_plant_data)
   \<and> get_current_generation two_plant_data 12 = generation_spec two_plant_data 12
   \<and> generation_spec two_plant_data 12 = 500
   \<and> hour_rows 5 (plant_1_hourly two_plant_data) = []
   \<and> hour_rows 5 (plant_2_hourly two_plant_data) = []
   \<and> get_current_generation two_plant_data 5 = 0
   \<and> plant_2_hourly one_plant_data = []
   \<and> get_current_generation one_plant_data 12 = 0"
  using generation_sum_of_averages [of two_plant_data 12]
    generation_sum_of_averages [of two_plant_data 5]
    generation_sum_of_averages [of one_plant_data 12]
  by (simp add: two_plant_data_def one_plant_data_def generation_eval)

text \<open>
  The claim as the specification states it fails when exactly one plant has data: with
  one row of 500 at hour 12 for the first plant and an empty series for the second, the
  sum of the plants' averages is 500 and the code returns 0.
\<close>

theorem generation_one_plant_empty:
  "plant_1_hourly one_plant_data \<noteq> [] \<and> plant_2_hourly one_plant_data = []
   \<and> generation_spec one_plant_data 12 = 500
   \<and> get_current_generation one_plant_data 12 = 0"
  by (simp add: one_plant_data_def generation_eval)

section \<open>Properties of the solar efficiency\<close>

text \<open>
  C6 does not hold of the code: a row with positive \<open>AC_POWER\<close> and \<open>DC_POWER\<close> 0 gets
  an infinite efficiency, since \<open>fillna(0)\<close> replaces NaN only. The substitution of 0
  happens when the ratio is NaN, as for 0 over 0.
\<close>

theorem efficiency_zero_dc:
  "efficiency (Fin 5) (Fin 0) = PInf \<and> efficiency (Fin 0) (Fin 0) = Fin 0
   \<and> efficiency (Fin 5) NaN = Fin 0 \<and> efficiency (Fin 3) (Fin 4) = Fin (3 / 4)"
  by (simp add: efficiency_def fillna0_def of_sign_def)

section \<open>Properties of the current consumption\<close>

subsection \<open>The loops over regions and records\<close>

lemma add_region_finite:
  assumes "row_fields d r \<noteq> Some (JNum PInf)" and "row_fields d r \<noteq> Some (JNum NInf)"
  shows "add_region d (Fin a) r = Fin (a + region_value d r)"
proof (cases "row_fields d r")
  case None
  then show ?thesis by (simp add: add_region_def row_get_def region_value_def)
next
  case (Some j)
  show ?thesis
  proof (cases j)
    case JNull
    with Some show ?thesis by (simp add: add_region_def row_get_def region_value_def)
  next
    case (JNum v)
    with Some assms show ?thesis
      by (cases v) (simp_all add: add_region_def row_get_def region_value_def)
  qed
qed

lemma foldl_add_region_finite:
  assumes "list_all (\<lambda>r. row_fields d r \<noteq> Some (JNum PInf) \<and> row_fields d r \<noteq> Some (JNum NInf)) rs"
  shows "foldl (add_region d) (Fin a) rs = Fin (a + sum_list (map (region_value d) rs))"
  using assms
proof (induction rs arbitrary: a)
  case Nil
  then show ?case by simp
next
  case (Cons r rs)
  then show ?case by (simp add: add_region_finite add.assoc)
qed

lemma regional_demand_finite:
  "finite_regions d \<Longrightarrow> regional_demand d = Fin (regional_demand_spec d)"
  unfolding finite_regions_def regional_demand_def regional_demand_spec_def
  using foldl_add_region_finite [of d regions 0] by simp

lemma add_period_finite:
  assumes "finite_regions d"
  shows "add_period (Fin t, n) d =
     (if regional_demand_spec d > 0 then (Fin (t + regional_demand_spec d), Suc n) else (Fin t, n))"
  using assms by (simp add: add_period_def regional_demand_finite fgt_def)

lemma foldl_add_period_finite:
  assumes "list_all finite_regions ds"
  shows "foldl add_period (Fin t, n) ds =
     (Fin (t + sum_list (filter (\<lambda>x. x > 0) (map regional_demand_spec ds))),
      n + length (filter (\<lambda>x. x > 0) (map regional_demand_spec ds)))"
  using assms
proof (induction ds arbitrary: t n)
  case Nil
  then show ?case by simp
next
  case (Cons d ds)
  then show ?case by (simp add: add_period_finite add.assoc)
qed

lemma demand_totals_finite:
  assumes "list_all finite_regions ds"
  shows "demand_totals ds =
     (Fin (sum_list (filter (\<lambda>x. x > 0) (map regional_demand_spec ds))),
      length (filter (\<lambda>x. x > 0) (map regional_demand_spec ds)))"
  using foldl_add_period_finite [OF assms, of 0 0] by (simp add: demand_totals_def)

lemma fdiv_count: "0 < n \<Longrightarrow> fdiv (Fin x) (Fin (real n)) = Inr (Fin (x / real n))"
  by simp

lemma consumption_matching:
  assumes "hour_rows h (demand_data data) \<noteq> []"
    and "list_all finite_regions (hour_rows h (demand_data data))"
  shows "fst (get_current_consumption data h s)
           = avg_mw_spec h (demand_data data) * 1000 * scaling_read s"
proof -
  define kept where
    "kept = filter (\<lambda>x. x > 0) (map regional_demand_spec (hour_rows h (demand_data data)))"
  have ne: "demand_data data \<noteq> []" using assms(1) by (auto simp: hour_rows_def)
  have tot: "demand_totals (hour_rows h (demand_data data)) = (Fin (sum_list kept), length kept)"
    unfolding kept_def by (rule demand_totals_finite [OF assms(2)])
  have avg: "avg_mw_spec h (demand_data data) = average kept"
    by (simp add: avg_mw_spec_def kept_def)
  show ?thesis
  proof (cases "kept = []")
    case True
    then show ?thesis using assms(1) ne tot avg
      by (simp add: get_current_consumption_def average_def)
  next
    case False
    then have pos: "0 < length kept" by simp
    obtain c s' where cfg: "svc_get_config s = (c, s')" by (cases "svc_get_config s")
    have "fst (get_current_consumption data h s)
            = sum_list kept / real (length kept) * 1000
                * heap s' c ''regional_to_community_scaling''"
      using assms(1) ne tot pos cfg
      by (simp add: get_current_consumption_def fdiv_count)
    then show ?thesis using False avg cfg by (simp add: average_def scaling_read_def)
  qed
qed

subsection \<open>The configuration read by a query\<close>

lemma svc_get_config_idem:
  "svc_get_config s = (c, s') \<Longrightarrow> svc_get_config s' = (c, s')"
  by (auto simp: svc_get_config_def split: option.splits prod.splits)

lemma scaling_read_idem: "scaling_read (snd (svc_get_config s)) = scaling_read s"
proof -
  obtain c s' where cfg: "svc_get_config s = (c, s')" by (cases "svc_get_config s")
  then show ?thesis using svc_get_config_idem [OF cfg] by (simp add: scaling_read_def)
qed

lemma ghc_cases:
  "get_hour_consumption h demand s =
     (let hour_data = hour_rows h demand in
      if hour_data = [] \<or> snd (demand_totals hour_data) = 0 then (Inr 0, s)
      else (case fdiv (fst (demand_totals hour_data)) (Fin (real (snd (demand_totals hour_data)))) of
              Inl e \<Rightarrow> (Inl e, s)
            | Inr avg \<Rightarrow> (Inr (safe_float (Some (fmul (fmul avg (Fin 1000)) (Fin (scaling_read s))))),
                           snd (svc_get_config s))))"
proof -
  obtain t n where tn: "demand_totals (hour_rows h demand) = (t, n)"
    by (cases "demand_totals (hour_rows h demand)")
  obtain c s' where cfg: "svc_get_config s = (c, s')" by (cases "svc_get_config s")
  show ?thesis
    by (simp add: get_hour_consumption_def Let_def scaling_read_def tn cfg
        del: fdiv.simps split: sum.splits)
qed


lemma ghc_state:
  "snd (get_hour_consumption h demand s) = s
   \<or> snd (get_hour_consumption h demand s) = snd (svc_get_config s)"
  by (simp add: ghc_cases Let_def del: fdiv.simps split: sum.splits)


lemma ghc_fst_after_config:
  "fst (get_hour_consumption h demand (snd (svc_get_config s))) = fst (get_hour_consumption h demand s)"
  by (simp add: ghc_cases Let_def scaling_read_idem del: fdiv.simps split: sum.splits)

lemma ghc_fst_after_ghc:
  "fst (get_hour_consumption h demand (snd (get_hour_consumption h' demand' s)))
     = fst (get_hour_consumption h demand s)"
  using ghc_state [of h' demand' s] by (auto simp: ghc_fst_after_config)

subsection \<open>The scan for the nearest hours\<close>

lemma nearest_hours_fst:
  "sorted hs \<Longrightarrow>
   fst (nearest_hours t hs acc) = (if filter (\<lambda>h. h < t) hs = [] then acc
                                   else Some (last (filter (\<lambda>h. h < t) hs)))"
proof (induction hs arbitrary: acc)
  case Nil
  then show ?case by simp
next
  case (Cons h hs)
  show ?case
  proof (cases "h < t")
    case True
    then show ?thesis using Cons by simp
  next
    case False
    show ?thesis
    proof (cases "t < h")
      case True
      then have "filter (\<lambda>x. x < t) hs = []" using Cons.prems by (auto simp: filter_empty_conv)
      then show ?thesis using True by simp
    next
      case False
      then show ?thesis using \<open>\<not> h < t\<close> Cons by simp
    qed
  qed
qed

lemma nearest_hours_snd:
  "snd (nearest_hours t hs acc) = (if filter (\<lambda>h. t < h) hs = [] then None
                                   else Some (hd (filter (\<lambda>h. t < h) hs)))"
  by (induction hs arbitrary: acc) auto

lemma sorted_last_max:
  assumes "sorted xs" and "b \<in> set xs" and "\<forall>x \<in> set xs. x \<le> b"
  shows "last xs = (b::int)"
proof -
  have ne: "xs \<noteq> []" using assms(2) by auto
  then have "last xs \<in> set xs" by simp
  then have le: "last xs \<le> b" using assms(3) by blast
  obtain i where i: "i < length xs" "xs ! i = b" using assms(2) by (auto simp: in_set_conv_nth)
  have "xs ! i \<le> xs ! (length xs - 1)"
    using assms(1) i ne by (intro sorted_nth_mono) auto
  then have "b \<le> last xs" using i ne by (simp add: last_conv_nth)
  with le show ?thesis by simp
qed

lemma sorted_hd_min:
  assumes "sorted xs" and "a \<in> set xs" and "\<forall>x \<in> set xs. a \<le> x"
  shows "hd xs = (a::int)"
proof -
  obtain y ys where xs: "xs = y # ys" using assms(2) by (cases xs) auto
  then have "a \<le> y" using assms(3) by simp
  moreover have "y \<le> a" using assms(1,2) xs by auto
  ultimately show ?thesis using xs by simp
qed

lemma set_available_hours: "set (available_hours demand) = hours_with_data demand"
  by (simp add: available_hours_def hours_with_data_def)

lemma sorted_available_hours: "sorted (available_hours demand)"
  by (simp add: available_hours_def)

lemma before_found:
  assumes "nearest_below demand t b"
  shows "fst (nearest_hours t (available_hours demand) None) = Some b"
proof -
  let ?xs = "filter (\<lambda>h. h < t) (available_hours demand)"
  have s: "sorted ?xs" using sorted_available_hours by (rule sorted_wrt_filter)
  have m: "b \<in> set ?xs" using assms by (simp add: nearest_below_def set_available_hours)
  have u: "\<forall>x \<in> set ?xs. x \<le> b" using assms by (simp add: nearest_below_def set_available_hours)
  have "last ?xs = b" by (rule sorted_last_max [OF s m u])
  moreover have "?xs \<noteq> []" using m by (cases ?xs) simp_all
  ultimately show ?thesis by (simp add: nearest_hours_fst [OF sorted_available_hours])
qed

lemma after_found:
  assumes "nearest_above demand t a"
  shows "snd (nearest_hours t (available_hours demand) None) = Some a"
proof -
  let ?xs = "filter (\<lambda>h. t < h) (available_hours demand)"
  have s: "sorted ?xs" using sorted_available_hours by (rule sorted_wrt_filter)
  have m: "a \<in> set ?xs" using assms by (simp add: nearest_above_def set_available_hours)
  have u: "\<forall>x \<in> set ?xs. a \<le> x" using assms by (simp add: nearest_above_def set_available_hours)
  have "hd ?xs = a" by (rule sorted_hd_min [OF s m u])
  moreover have "?xs \<noteq> []" using m by (cases ?xs) simp_all
  ultimately show ?thesis by (simp add: nearest_hours_snd)
qed

lemma before_none:
  assumes "none_below demand t"
  shows "fst (nearest_hours t (available_hours demand) None) = None"
proof -
  have "filter (\<lambda>h. h < t) (available_hours demand) = []"
    using assms by (simp add: none_below_def set_available_hours filter_empty_conv)
  then show ?thesis by (simp add: nearest_hours_fst [OF sorted_available_hours])
qed

lemma after_none:
  assumes "none_above demand t"
  shows "snd (nearest_hours t (available_hours demand) None) = None"
proof -
  have "filter (\<lambda>h. t < h) (available_hours demand) = []"
    using assms by (simp add: none_above_def set_available_hours filter_empty_conv)
  then show ?thesis by (simp add: nearest_hours_snd)
qed

lemma interpolate_two_sided:
  assumes b: "nearest_below demand t b" and a: "nearest_above demand t a"
    and bv: "fst (get_hour_consumption b demand s) = Inr bv"
    and av: "fst (get_hour_consumption a demand s) = Inr av"
  shows "fst (interpolate_consumption t demand s)
           = Inr (bv + (of_int (t - b) / of_int (a - b)) * (av - bv))"
proof -
  have nh: "nearest_hours t (available_hours demand) None = (Some b, Some a)"
    using before_found [OF b] after_found [OF a] by (simp add: prod_eq_iff)
  have ne: "available_hours demand \<noteq> []"
    using b set_available_hours [of demand] by (auto simp: nearest_below_def)
  have ab: "a \<noteq> b" "a - b \<noteq> 0" using a b by (auto simp: nearest_below_def nearest_above_def)
  obtain s1 where g1: "get_hour_consumption b demand s = (Inr bv, s1)"
    using bv by (cases "get_hour_consumption b demand s") simp
  have "fst (get_hour_consumption a demand s1) = Inr av"
    using ghc_fst_after_ghc [of a demand b demand s] g1 av by simp
  then obtain s2 where g2: "get_hour_consumption a demand s1 = (Inr av, s2)"
    by (cases "get_hour_consumption a demand s1") simp
  show ?thesis
    using ab by (simp add: interpolate_consumption_def ne nh g1 g2 fsub_def)
qed

lemma interpolate_above_only:
  assumes "none_below demand t" and a: "nearest_above demand t a"
  shows "fst (interpolate_consumption t demand s) = fst (get_hour_consumption a demand s)"
proof -
  have nh: "nearest_hours t (available_hours demand) None = (None, Some a)"
    using before_none [OF assms(1)] after_found [OF a] by (simp add: prod_eq_iff)
  have ne: "available_hours demand \<noteq> []"
    using a set_available_hours [of demand] by (auto simp: nearest_above_def)
  show ?thesis by (simp add: interpolate_consumption_def ne nh)
qed

lemma interpolate_below_only:
  assumes b: "nearest_below demand t b" and "none_above demand t"
  shows "fst (interpolate_consumption t demand s) = fst (get_hour_consumption b demand s)"
proof -
  have nh: "nearest_hours t (available_hours demand) None = (Some b, None)"
    using before_found [OF b] after_none [OF assms(2)] by (simp add: prod_eq_iff)
  have ne: "available_hours demand \<noteq> []"
    using b set_available_hours [of demand] by (auto simp: nearest_below_def)
  show ?thesis by (simp add: interpolate_consumption_def ne nh)
qed

lemma interpolate_no_hours:
  assumes "hours_with_data demand = {}"
  shows "fst (interpolate_consumption t demand s) = Inr 0"
  using assms set_available_hours [of demand] by (simp add: interpolate_consumption_def)

subsection \<open>Records without usable values, and totality\<close>

lemma null_regions_finite: "null_regions d \<Longrightarrow> finite_regions d"
  by (auto simp: null_regions_def finite_regions_def list_all_iff)

lemma sum_list_all_zero: "\<forall>x \<in> set xs. f x = (0::real) \<Longrightarrow> sum_list (map f xs) = 0"
  by (induction xs) auto

lemma null_regions_spec: "null_regions d \<Longrightarrow> regional_demand_spec d = 0"
proof -
  assume n: "null_regions d"
  have "\<forall>r \<in> set regions. region_value d r = 0"
    using n by (auto simp: null_regions_def list_all_iff region_value_def)
  then show ?thesis unfolding regional_demand_spec_def by (rule sum_list_all_zero)
qed

lemma demand_totals_null:
  assumes "list_all null_regions ds"
  shows "demand_totals ds = (Fin 0, 0)"
proof -
  have f: "list_all finite_regions ds"
    using assms by (auto simp: list_all_iff null_regions_finite)
  have "filter (\<lambda>x. x > 0) (map regional_demand_spec ds) = []"
    using assms by (auto simp: filter_empty_conv list_all_iff null_regions_spec)
  then show ?thesis using demand_totals_finite [OF f] by simp
qed

lemma list_all_hour_rows: "list_all P ds \<Longrightarrow> list_all P (hour_rows h ds)"
  by (auto simp: hour_rows_def list_all_iff)

lemma ghc_null:
  assumes "list_all null_regions demand"
  shows "get_hour_consumption h demand s = (Inr 0, s)"
  using demand_totals_null [OF list_all_hour_rows [OF assms, of h]]
  by (simp add: ghc_cases Let_def del: fdiv.simps)

lemma interpolate_null:
  assumes "list_all null_regions demand"
  shows "fst (interpolate_consumption t demand s) = Inr 0"
proof -
  obtain b a where nh: "nearest_hours t (available_hours demand) None = (b, a)"
    by (cases "nearest_hours t (available_hours demand) None")
  show ?thesis
  proof (cases "available_hours demand = []")
    case True
    then show ?thesis by (simp add: interpolate_consumption_def)
  next
    case False
    show ?thesis
    proof (cases b)
      case None
      then show ?thesis using False nh
        by (cases a) (simp_all add: interpolate_consumption_def ghc_null [OF assms])
    next
      case (Some bh)
      show ?thesis
      proof (cases a)
        case None
        then show ?thesis using False nh Some
          by (simp add: interpolate_consumption_def ghc_null [OF assms])
      next
        case (Some ah)
        then show ?thesis using False nh \<open>b = Some bh\<close>
          by (simp add: interpolate_consumption_def ghc_null [OF assms] fsub_def)
      qed
    qed
  qed
qed

lemma consumption_null_zero:
  assumes "list_all null_regions (demand_data data)"
  shows "fst (get_current_consumption data h s) = 0"
proof (cases "demand_data data = []")
  case True
  then show ?thesis by (simp add: get_current_consumption_def)
next
  case False
  show ?thesis
  proof (cases "hour_rows h (demand_data data) = []")
    case True
    obtain r s' where i: "interpolate_consumption h (demand_data data) s = (r, s')"
      by (cases "interpolate_consumption h (demand_data data) s")
    then have "r = Inr 0" using interpolate_null [OF assms, of h s] by simp
    then show ?thesis using False True i by (simp add: get_current_consumption_def)
  next
    case ne: False
    then show ?thesis
      using False demand_totals_null [OF list_all_hour_rows [OF assms, of h]]
      by (simp add: get_current_consumption_def)
  qed
qed



subsection \<open>Evaluation on the example data\<close>

lemma new_document_scaling: "new_document now ''regional_to_community_scaling'' = 1 / 10000"
  by (simp add: new_document_def document_fields_def)

lemma scaling_read_fresh: "scaling_read fresh_sys = 1 / 10000"
  by (simp add: scaling_read_def svc_get_config_def get_config_def load_config_def alloc_def
      save_config_def fresh_sys_def new_document_scaling)

lemmas demand_eval = hour_rows_def demand_row_def demand_totals_def add_period_def
  regional_demand_def regions_def add_region_def row_get_def fgt_def Let_def

lemmas demand_spec_eval = avg_mw_spec_def hour_rows_def demand_row_def regional_demand_spec_def
  regions_def region_value_def average_def finite_regions_def null_regions_def

lemma two_hours_values:
  "fst (get_hour_consumption 6 two_hours fresh_sys) = Inr 100"
  "fst (get_hour_consumption 10 two_hours fresh_sys) = Inr 200"
  by (simp_all add: ghc_cases two_hours_def demand_eval scaling_read_fresh)

lemma only_ten_value: "fst (get_hour_consumption 10 only_ten fresh_sys) = Inr 200"
  by (simp add: ghc_cases only_ten_def demand_eval scaling_read_fresh)

lemma two_hours_hours: "hours_with_data two_hours = {6, 10}"
  by (auto simp: hours_with_data_def two_hours_def List.map_filter_def demand_row_def)

lemma only_ten_hours: "hours_with_data only_ten = {10}"
  by (auto simp: hours_with_data_def only_ten_def List.map_filter_def demand_row_def)

subsection \<open>The claims\<close>



text \<open>
  C8. For every demand record set in which every region value of every record is
  \<open>null\<close> or NaN (or absent), the current consumption is exactly 0: such a value is
  never counted as a zero, and nothing is divided by a zero count. (The result is a
  finite number by its type; NaN cannot be returned.)
\<close>

theorem consumption_all_null:
  assumes "list_all null_regions (demand_data data)"
  shows "fst (get_current_consumption data h s) = 0"
  using assms by (rule consumption_null_zero)

theorem consumption_all_null_witness:
  "list_all null_regions (demand_data null_data)
   \<and> fst (get_current_consumption null_data 12 fresh_sys) = 0
   \<and> fst (get_current_consumption null_data 10 fresh_sys) = 0"
  using consumption_all_null [of null_data 12 fresh_sys]
    consumption_all_null [of null_data 10 fresh_sys]
  by (simp add: null_data_def demand_spec_eval)

text \<open>
  C1. The interpolation at a target hour. When hours with data exist below and above
  the target, \<open>before\<close> and \<open>after\<close> being the nearest of them, the result is
  before_value + ((target - before) / (after - before)) * (after_value - before_value),
  the two values being the hour consumptions of \<open>before\<close> and \<open>after\<close>. When data
  exists on one side only, the result is the hour consumption of the nearest hour of
  that side, unchanged. When no hour has data, the result is 0. (The statement needs no
  assumption on the target hour itself; the interpolation is called when no record is at
  the target hour.)
\<close>

theorem interpolation_cases:
  "(nearest_below demand t b \<and> nearest_above demand t a
      \<and> fst (get_hour_consumption b demand s) = Inr before_value
      \<and> fst (get_hour_consumption a demand s) = Inr after_value
     \<longrightarrow> fst (interpolate_consumption t demand s)
           = Inr (before_value
                  + (of_int (t - b) / of_int (a - b)) * (after_value - before_value)))
   \<and> (none_below demand t \<and> nearest_above demand t a
     \<longrightarrow> fst (interpolate_consumption t demand s) = fst (get_hour_consumption a demand s))
   \<and> (nearest_below demand t b \<and> none_above demand t
     \<longrightarrow> fst (interpolate_consumption t demand s) = fst (get_hour_consumption b demand s))
   \<and> (hours_with_data demand = {} \<longrightarrow> fst (interpolate_consumption t demand s) = Inr 0)"
  using interpolate_two_sided [of demand t b a s before_value after_value]
    interpolate_above_only [of demand t a s] interpolate_below_only [of demand t b s]
    interpolate_no_hours [of demand t s]
  by blast

theorem interpolation_cases_witness:
  "nearest_below two_hours 8 6 \<and> nearest_above two_hours 8 10
   \<and> hour_rows 8 two_hours = []
   \<and> fst (get_hour_consumption 6 two_hours fresh_sys) = Inr 100
   \<and> fst (get_hour_consumption 10 two_hours fresh_sys) = Inr 200
   \<and> fst (interpolate_consumption 8 two_hours fresh_sys) = Inr 150
   \<and> none_below only_ten 3 \<and> nearest_above only_ten 3 10
   \<and> fst (get_hour_consumption 10 only_ten fresh_sys) = Inr 200
   \<and> fst (interpolate_consumption 3 only_ten fresh_sys) = Inr 200
   \<and> nearest_below only_ten 15 10 \<and> none_above only_ten 15
   \<and> fst (interpolate_consumption 15 only_ten fresh_sys) = Inr 200
   \<and> hours_with_data [] = {}
   \<and> fst (interpolate_consumption 8 [] fresh_sys) = Inr 0"
proof -
  have n: "nearest_below two_hours 8 6" "nearest_above two_hours 8 10"
    "none_below only_ten 3" "nearest_above only_ten 3 10"
    "nearest_below only_ten 15 10" "none_above only_ten 15"
    by (simp_all add: nearest_below_def nearest_above_def none_below_def none_above_def
        two_hours_hours only_ten_hours)
  have h: "hours_with_data [] = {}"
    by (simp add: hours_with_data_def List.map_filter_def)
  have e: "hour_rows 8 two_hours = []"
    by (simp add: hour_rows_def two_hours_def demand_row_def)
  show ?thesis
    using interpolation_cases [of two_hours 8 6 10 fresh_sys 100 200]
      interpolation_cases [of only_ten 3 0 10 fresh_sys 0 0]
      interpolation_cases [of only_ten 15 10 0 fresh_sys 0 0]
      interpolation_cases [of "[]" 8 0 0 fresh_sys 0 0]
      n h e two_hours_values only_ten_value
    by simp
qed

section \<open>Properties of the configuration update\<close>

subsection \<open>Validation of the request body\<close>



lemma map_fst_update_data:
  "map fst (concat (map (\<lambda>(name, bd). case f name of None \<Rightarrow> [] | Some v \<Rightarrow> [(name, v)]) xs))
     = filter (\<lambda>n. f n \<noteq> None) (map fst xs)"
  by (induction xs) (auto split: option.splits)

lemma distinct_update_schema: "distinct (map fst update_schema)"
  by (simp add: update_schema_def)

lemma validate_update_distinct:
  "validate_update b = Inr ud \<Longrightarrow> distinct (map fst ud)"
  using distinct_update_schema
  by (auto simp: validate_update_def map_fst_update_data split: if_splits)

lemma update_data_member:
  "(name, bd) \<in> set xs \<Longrightarrow> f name = Some v \<Longrightarrow>
   (name, v) \<in> set (concat (map (\<lambda>(name, bd). case f name of
                                       None \<Rightarrow> [] | Some v \<Rightarrow> [(name, v)]) xs))"
  by (induction xs) auto

lemma validate_update_member:
  assumes "validate_update b = Inr ud" and "(name, bd) \<in> set update_schema"
    and "b name = Some (JNum (Fin v))"
  shows "(name, coerce name v) \<in> set ud"
proof -
  have ud: "ud = concat (map (\<lambda>(name, bd). case field_value b name of
                            None \<Rightarrow> [] | Some v \<Rightarrow> [(name, v)]) update_schema)"
    using assms(1) by (simp add: validate_update_def split: if_splits)
  have fv: "field_value b name = Some (coerce name v)"
    using assms(3) by (simp add: field_value_def)
  show ?thesis unfolding ud using assms(2) fv by (rule update_data_member)
qed

lemma scaling_in_schema:
  "(''regional_to_community_scaling'', (1 / 100000, Some (1 / 100))) \<in> set update_schema"
  by (simp add: update_schema_def)

subsection \<open>The attribute loop\<close>

lemma set_attributes_other:
  "set_attributes c kwargs = (e, c') \<Longrightarrow> k \<notin> fst ` set kwargs \<Longrightarrow> c' k = c k"
proof (induction kwargs arbitrary: c)
  case Nil
  then show ?case by simp
next
  case (Cons kv kwargs)
  obtain key v where kv: "kv = (key, v)" by (cases kv)
  have k: "k \<noteq> key" "k \<notin> fst ` set kwargs" using Cons.prems(2) kv by auto
  show ?case
  proof (cases "key \<in> set attribute_names \<and> key \<notin> set protected_names")
    case True
    then have "set_attributes (c(key := v)) kwargs = (e, c')" using Cons.prems(1) kv by simp
    from Cons.IH [OF this k(2)] show ?thesis using k(1) by simp
  next
    case False
    show ?thesis
    proof (cases "key \<notin> set protected_names")
      case True
      then show ?thesis using False Cons.prems(1) kv by auto
    next
      case np: False
      then have "set_attributes c kwargs = (e, c')" using False Cons.prems(1) kv by simp
      from Cons.IH [OF this k(2)] show ?thesis .
    qed
  qed
qed

lemma set_attributes_value:
  "set_attributes c kwargs = (None, c') \<Longrightarrow> distinct (map fst kwargs) \<Longrightarrow>
   (k, v) \<in> set kwargs \<Longrightarrow> k \<notin> set protected_names \<Longrightarrow> c' k = v"
proof (induction kwargs arbitrary: c)
  case Nil
  then show ?case by simp
next
  case (Cons kv kwargs)
  obtain key v' where kv: "kv = (key, v')" by (cases kv)
  show ?case
  proof (cases "(k, v) = kv")
    case True
    then have eq: "key = k" "v' = v" using kv by auto
    have notin: "k \<notin> fst ` set kwargs" using Cons.prems(2) kv eq by auto
    have ok: "k \<in> set attribute_names \<and> k \<notin> set protected_names"
      using Cons.prems(1,4) kv eq by (auto split: if_splits)
    then have "set_attributes (c(k := v)) kwargs = (None, c')"
      using Cons.prems(1) kv eq by simp
    from set_attributes_other [OF this notin] show ?thesis by simp
  next
    case False
    then have mem: "(k, v) \<in> set kwargs" using Cons.prems(3) by auto
    have d: "distinct (map fst kwargs)" using Cons.prems(2) by simp
    show ?thesis
    proof (cases "key \<in> set attribute_names \<and> key \<notin> set protected_names")
      case True
      then have "set_attributes (c(key := v')) kwargs = (None, c')"
        using Cons.prems(1) kv by simp
      from Cons.IH [OF this d mem Cons.prems(4)] show ?thesis .
    next
      case nt: False
      then have "key \<in> set protected_names" using Cons.prems(1) kv by (auto split: if_splits)
      then have "set_attributes c kwargs = (None, c')" using nt Cons.prems(1) kv by simp
      from Cons.IH [OF this d mem Cons.prems(4)] show ?thesis .
    qed
  qed
qed

lemma derived_scaling:
  "calculate_derived_values c ''regional_to_community_scaling''
     = c ''regional_to_community_scaling''"
  by (simp add: calculate_derived_values_def Let_def)

lemma derived_households:
  "calculate_derived_values c ''total_households'' = c ''total_households''"
  by (simp add: calculate_derived_values_def Let_def)

lemma update_and_calculate_scaling:
  assumes "update_and_calculate c kwargs now = (None, c')"
    and "distinct (map fst kwargs)"
    and "(''regional_to_community_scaling'', v) \<in> set kwargs"
  shows "c' ''regional_to_community_scaling'' = v"
proof -
  from assms(1) obtain c1 where sa: "set_attributes c kwargs = (None, c1)"
    and c': "c' = (calculate_derived_values c1)(''updated_at'' := now)"
    by (auto simp: update_and_calculate_def split: prod.splits option.splits)
  have "c1 ''regional_to_community_scaling'' = v"
    using set_attributes_value [OF sa assms(2,3)] by (simp add: protected_names_def)
  then show ?thesis using c' by (simp add: derived_scaling)
qed

subsection \<open>The manager\<close>

lemma get_config_result:
  assumes "get_config s = (a, s')"
  shows "config_cache s' = Some a" and "svc_config s' = svc_config s"
  using assms
  by (auto simp: get_config_def load_config_def alloc_def save_config_def
      split: option.splits if_splits prod.splits)

lemma get_config_cached: "config_cache s = Some a \<Longrightarrow> get_config s = (a, s)"
  by (simp add: get_config_def)

lemma update_config_unfold:
  assumes g: "get_config s = (a, s1)"
    and u: "update_and_calculate (heap s1 a) kwargs (utc_now s1) = (err, c')"
  shows "update_config kwargs s =
      (case err of
         Some e \<Rightarrow> (Some e, s1\<lparr>heap := (heap s1)(a := c')\<rparr>)
       | None \<Rightarrow>
          (if db_up s1
           then (None, s1\<lparr>heap := (heap s1)(a := c'), db_doc := Some c',
                           config_cache := Some a\<rparr>)
           else (Some DatabaseError, s1\<lparr>heap := (heap s1)(a := c')\<rparr>)))"
  by (simp add: update_config_def g u Let_def save_config_def split: option.splits)

lemma update_config_success:
  assumes "update_config kwargs s = (None, s')"
  obtains a c' where "config_cache s' = Some a" and "heap s' a = c'"
    and "update_and_calculate (heap (snd (get_config s)) a) kwargs
           (utc_now (snd (get_config s))) = (None, c')"
    and "svc_config s' = svc_config s"
    and "a = fst (get_config s)"
proof -
  obtain a s1 where g: "get_config s = (a, s1)" by (cases "get_config s")
  obtain err c' where u: "update_and_calculate (heap s1 a) kwargs (utc_now s1) = (err, c')"
    by (cases "update_and_calculate (heap s1 a) kwargs (utc_now s1)")
  have svc: "svc_config s1 = svc_config s" using get_config_result(2) [OF g] .
  note uc = update_config_unfold [OF g u]
  have e: "err = None" using assms uc by (cases err) simp_all
  have up: "db_up s1" using assms uc e by (cases "db_up s1") simp_all
  have s': "s' = s1\<lparr>heap := (heap s1)(a := c'), db_doc := Some c', config_cache := Some a\<rparr>"
    using assms uc e up by simp
  have 1: "config_cache s' = Some a" by (simp add: s')
  have 2: "heap s' a = c'" by (simp add: s')
  have 3: "update_and_calculate (heap (snd (get_config s)) a) kwargs
             (utc_now (snd (get_config s))) = (None, c')"
    unfolding g snd_conv using u e by simp
  have 4: "svc_config s' = svc_config s" using svc by (simp add: s')
  have 5: "a = fst (get_config s)" by (simp add: g)
  show ?thesis by (rule that [OF 1 2 3 4 5])
qed

lemma put_success:
  assumes "update_community_config b s = (Ok c, s')"
  obtains ud where "validate_update b = Inr ud" and "update_config ud s = (None, s')"
proof -
  from assms obtain ud where v: "validate_update b = Inr ud"
    by (auto simp: update_community_config_def split: sum.splits)
  from assms v obtain s1 where u: "update_config ud s = (None, s1)"
    by (auto simp: update_community_config_def
        split: if_splits prod.splits option.splits pyerror.splits)
  obtain a where "config_cache s1 = Some a" using update_config_success [OF u] by metis
  then have "get_config s1 = (a, s1)" by (rule get_config_cached)
  with assms v u have "s' = s1"
    by (auto simp: update_community_config_def split: if_splits)
  with v u that show ?thesis by simp
qed

text \<open>A valid request on a loaded configuration, step by step.\<close>

lemma put_valid:
  assumes v: "validate_update b = Inr ud" and ne: "ud \<noteq> []"
    and up: "db_up s" and cache: "config_cache s = Some a"
    and sa: "set_attributes (heap s a) ud = (None, c1)"
    and hh: "c1 ''total_households'' \<noteq> 0"
  shows "update_community_config b s =
     (Ok ((calculate_derived_values c1)(''updated_at'' := utc_now s)),
      s\<lparr>heap := (heap s)(a := (calculate_derived_values c1)(''updated_at'' := utc_now s)),
        db_doc := Some ((calculate_derived_values c1)(''updated_at'' := utc_now s)),
        config_cache := Some a\<rparr>)"
proof -
  let ?c = "(calculate_derived_values c1)(''updated_at'' := utc_now s)"
  let ?s = "s\<lparr>heap := (heap s)(a := ?c), db_doc := Some ?c, config_cache := Some a\<rparr>"
  have g: "get_config s = (a, s)" using cache by (rule get_config_cached)
  have u: "update_and_calculate (heap s a) ud (utc_now s) = (None, ?c)"
    by (simp add: update_and_calculate_def sa)
  have uc: "update_config ud s = (None, ?s)"
    using update_config_unfold [OF g u] up by simp
  have g2: "get_config ?s = (a, ?s)" by (rule get_config_cached) simp
  have h2: "heap ?s a = ?c" by simp
  have "?c ''total_households'' \<noteq> 0" using hh by (simp add: derived_households)
  then show ?thesis
    unfolding update_community_config_def v using ne
    by (simp add: uc g2 fun_upd_same del: fun_upd_apply)
qed

lemma svc_get_config_sync:
  assumes "in_sync s" and "svc_get_config s = (a, s')"
  shows "in_sync s'" and "config_cache s' = Some a"
proof -
  show "in_sync s'"
    using assms get_config_result
    by (auto simp: in_sync_def svc_get_config_def split: option.splits prod.splits)
  show "config_cache s' = Some a"
    using assms get_config_result
    by (auto simp: in_sync_def svc_get_config_def split: option.splits prod.splits)
qed

lemma svc_get_config_state_idem: "snd (svc_get_config (snd (svc_get_config s))) = snd (svc_get_config s)"
proof -
  obtain c s' where cfg: "svc_get_config s = (c, s')" by (cases "svc_get_config s")
  then show ?thesis using svc_get_config_idem [OF cfg] by simp
qed

lemma interpolate_state:
  "snd (interpolate_consumption t demand s) = s
   \<or> snd (interpolate_consumption t demand s) = snd (svc_get_config s)"
proof -
  have step: "\<And>h h' x. snd (get_hour_consumption h demand (snd (get_hour_consumption h' demand s))) = s
     \<or> snd (get_hour_consumption h demand (snd (get_hour_consumption h' demand s))) = snd (svc_get_config s)"
  proof -
    fix h h'
    show "snd (get_hour_consumption h demand (snd (get_hour_consumption h' demand s))) = s
     \<or> snd (get_hour_consumption h demand (snd (get_hour_consumption h' demand s))) = snd (svc_get_config s)"
      using ghc_state [of h' demand s]
        ghc_state [of h demand "snd (get_hour_consumption h' demand s)"]
      by (auto simp: svc_get_config_state_idem)
  qed
  obtain b a where nh: "nearest_hours t (available_hours demand) None = (b, a)"
    by (cases "nearest_hours t (available_hours demand) None")
  show ?thesis
  proof (cases "available_hours demand = []")
    case True
    then show ?thesis by (simp add: interpolate_consumption_def)
  next
    case False
    show ?thesis
    proof (cases b)
      case None
      then show ?thesis using False nh ghc_state
        by (cases a) (simp_all add: interpolate_consumption_def)
    next
      case (Some bh)
      show ?thesis
      proof (cases a)
        case None
        then show ?thesis using False nh Some ghc_state
          by (simp add: interpolate_consumption_def)
      next
        case (Some ah)
        obtain r1 s1 where g1: "get_hour_consumption bh demand s = (r1, s1)"
          by (cases "get_hour_consumption bh demand s")
        obtain r2 s2 where g2: "get_hour_consumption ah demand s1 = (r2, s2)"
          by (cases "get_hour_consumption ah demand s1")
        have s1: "s1 = s \<or> s1 = snd (svc_get_config s)" using ghc_state [of bh demand s] g1 by simp
        have s2: "s2 = s \<or> s2 = snd (svc_get_config s)" using step [of ah bh] g1 g2 by simp
        show ?thesis using False nh Some \<open>b = Some bh\<close> g1 g2 s1 s2
          by (simp add: interpolate_consumption_def del: fdiv.simps split: sum.splits)
      qed
    qed
  qed
qed

lemma consumption_state:
  "snd (get_current_consumption data h s) = s
   \<or> snd (get_current_consumption data h s) = snd (svc_get_config s)"
proof -
  obtain t n where tn: "demand_totals (hour_rows h (demand_data data)) = (t, n)"
    by (cases "demand_totals (hour_rows h (demand_data data))")
  obtain r s' where i: "interpolate_consumption h (demand_data data) s = (r, s')"
    by (cases "interpolate_consumption h (demand_data data) s")
  have "s' = s \<or> s' = snd (svc_get_config s)"
    using interpolate_state [of h "demand_data data" s] i by simp
  then show ?thesis
    by (auto simp: get_current_consumption_def Let_def tn i simp del: fdiv.simps
        split: sum.splits prod.splits)
qed

lemma consumption_sync: "in_sync s \<Longrightarrow> in_sync (snd (get_current_consumption data h s))"
proof -
  assume s: "in_sync s"
  obtain c s' where cfg: "svc_get_config s = (c, s')" by (cases "svc_get_config s")
  have "in_sync s'" using svc_get_config_sync(1) [OF s cfg] .
  then show ?thesis using consumption_state [of data h s] s cfg by auto
qed

lemma scaling_read_sync:
  assumes "in_sync s" and "config_cache s = Some a"
  shows "scaling_read s = heap s a ''regional_to_community_scaling''"
  using assms
  by (auto simp: scaling_read_def svc_get_config_def in_sync_def get_config_def
      split: option.splits)

lemma update_visible_scaling:
  assumes sync: "in_sync s"
    and upd: "update_community_config b (snd (get_current_consumption data h s)) = (Ok c, s')"
    and val: "b ''regional_to_community_scaling'' = Some (JNum (Fin v))"
  shows "scaling_read s' = v"
proof -
  let ?s1 = "snd (get_current_consumption data h s)"
  have sync1: "in_sync ?s1" using sync by (rule consumption_sync)
  from put_success [OF upd] obtain ud where
    v: "validate_update b = Inr ud" and u: "update_config ud ?s1 = (None, s')" by blast
  from update_config_success [OF u] obtain a c' where
    cache: "config_cache s' = Some a" and heap: "heap s' a = c'"
    and uac: "update_and_calculate (heap (snd (get_config ?s1)) a) ud
                (utc_now (snd (get_config ?s1))) = (None, c')"
    and svc: "svc_config s' = svc_config ?s1" and a: "a = fst (get_config ?s1)" by blast
  have mem: "(''regional_to_community_scaling'', v) \<in> set ud"
    using validate_update_member [OF v scaling_in_schema val]
    by (simp add: coerce_def integer_fields_def)
  have c': "c' ''regional_to_community_scaling'' = v"
    using update_and_calculate_scaling [OF uac validate_update_distinct [OF v] mem] .
  have "in_sync s'"
  proof (cases "svc_config ?s1")
    case None
    then show ?thesis using svc by (simp add: in_sync_def)
  next
    case (Some r)
    then have "config_cache ?s1 = Some r" using sync1 by (simp add: in_sync_def)
    then have "a = r" using a by (simp add: get_config_cached)
    then show ?thesis using svc Some cache by (simp add: in_sync_def)
  qed
  then show ?thesis using scaling_read_sync cache heap c' by simp
qed

lemma svc_cached: "svc_config s = Some a \<Longrightarrow> svc_get_config s = (a, s)"
  by (simp add: svc_get_config_def)

lemma consumption_state_cached:
  "svc_config s = Some a \<Longrightarrow> snd (get_current_consumption data h s) = s"
  using consumption_state [of data h s] by (auto simp: svc_cached)

lemma scaling_read_cached:
  "svc_config s = Some a \<Longrightarrow> scaling_read s = heap s a ''regional_to_community_scaling''"
  by (simp add: scaling_read_def svc_cached)

subsection \<open>Evaluation on the example states\<close>

lemma noon_rows: "hour_rows 12 (demand_data noon_data) \<noteq> []"
  "list_all finite_regions (hour_rows 12 (demand_data noon_data))"
  by (simp_all add: noon_data_def demand_spec_eval)

lemma noon_avg: "avg_mw_spec 12 (demand_data noon_data) = 1000"
  by (simp add: noon_data_def demand_spec_eval)

lemma noon_value: "fst (get_current_consumption noon_data 12 s) = 1000 * 1000 * scaling_read s"
  using consumption_matching [OF noon_rows, of s] by (simp add: noon_avg)

lemma fresh_first_query:
  "snd (get_current_consumption noon_data 12 fresh_sys)
     = \<lparr>heap = (\<lambda>a k. 0)(0 := new_document 0), next_ref = Suc 0, config_cache = Some 0,
        db_doc = Some (new_document 0), db_up = True, utc_now = 0, svc_config = Some 0\<rparr>"
  by (simp add: get_current_consumption_def noon_data_def demand_eval svc_get_config_def
      get_config_def load_config_def alloc_def save_config_def fresh_sys_def)

lemma loaded_state:
  "loaded_sys
     = \<lparr>heap = (\<lambda>a k. 0)(0 := new_document 0), next_ref = Suc 0, config_cache = Some 0,
        db_doc = Some (new_document 0), db_up = True, utc_now = 0, svc_config = None\<rparr>"
  by (simp add: loaded_sys_def get_config_def load_config_def alloc_def save_config_def
      fresh_sys_def)

lemma stale_state:
  "stale_sys
     = \<lparr>heap = (\<lambda>a k. 0)(0 := new_document 0, Suc 0 := new_document 0),
        next_ref = Suc (Suc 0), config_cache = Some (Suc 0),
        db_doc = Some (new_document 0), db_up = True, utc_now = 0, svc_config = Some 0\<rparr>"
  unfolding stale_sys_def fresh_first_query
  by (simp add: reset_config_def alloc_def save_config_def)

lemma new_document_households: "new_document now ''total_households'' = 500"
  by (simp add: new_document_def document_fields_def)


lemma set_scaling:
  "set_attributes c [(''regional_to_community_scaling'', v)]
     = (None, c(''regional_to_community_scaling'' := v))"
  by (simp add: attribute_names_def protected_names_def document_fields_def)


lemmas validate_eval = field_errors_def update_schema_def in_bounds_def validator_ok_def
  checked_value_def field_value_def coerce_def integer_fields_def py_int_def

lemma scaling_body_valid:
  "validate_update scaling_body = Inr [(''regional_to_community_scaling'', 1 / 200)]"
proof -
  have "field_errors scaling_body = []"
    by (simp add: scaling_body_def validate_eval)
  then show ?thesis
    by (simp add: validate_update_def) (simp add: scaling_body_def update_schema_def field_value_def coerce_def integer_fields_def)
qed



lemma stale_put:
  "update_community_config scaling_body stale_sys =
     (Ok ((calculate_derived_values ((new_document 0)(''regional_to_community_scaling'' := 1 / 200)))
            (''updated_at'' := 0)),
      stale_sys\<lparr>heap := (heap stale_sys)(Suc 0 :=
           (calculate_derived_values
              ((new_document 0)(''regional_to_community_scaling'' := 1 / 200)))
             (''updated_at'' := 0)),
        db_doc := Some ((calculate_derived_values
              ((new_document 0)(''regional_to_community_scaling'' := 1 / 200)))
             (''updated_at'' := 0)),
        config_cache := Some (Suc 0)\<rparr>)"
proof -
  have up: "db_up stale_sys" and cache: "config_cache stale_sys = Some (Suc 0)"
    and now: "utc_now stale_sys = 0" and h: "heap stale_sys (Suc 0) = new_document 0"
    by (simp_all add: stale_state)
  have sa: "set_attributes (heap stale_sys (Suc 0)) [(''regional_to_community_scaling'', 1 / 200)]
              = (None, (new_document 0)(''regional_to_community_scaling'' := 1 / 200))"
    unfolding h by (rule set_scaling)
  have hh: "((new_document 0)(''regional_to_community_scaling'' := 1 / 200)) ''total_households''
              \<noteq> 0"
    by (simp add: new_document_households)
  have ne: "[(''regional_to_community_scaling'', 1 / 200::real)] \<noteq> []" by simp
  show ?thesis
    by (rule put_valid [OF scaling_body_valid ne up cache sa hh, unfolded now])
qed

subsection \<open>The agreement of instance and manager is kept\<close>

lemma update_config_sync:
  assumes "in_sync s"
  shows "in_sync (snd (update_config kwargs s))"
proof -
  obtain a s1 where g: "get_config s = (a, s1)" by (cases "get_config s")
  obtain err c' where u: "update_and_calculate (heap s1 a) kwargs (utc_now s1) = (err, c')"
    by (cases "update_and_calculate (heap s1 a) kwargs (utc_now s1)")
  have c1: "config_cache s1 = Some a" and v1: "svc_config s1 = svc_config s"
    using get_config_result [OF g] by simp_all
  have "svc_config s = None \<or> svc_config s = Some a"
  proof (cases "svc_config s")
    case None
    then show ?thesis by simp
  next
    case (Some r)
    then have "config_cache s = Some r" using assms by (simp add: in_sync_def)
    then have "a = r" using g by (simp add: get_config_cached)
    then show ?thesis using Some by simp
  qed
  then show ?thesis
    unfolding update_config_unfold [OF g u] using c1 v1
    by (auto simp: in_sync_def split: option.splits)
qed

lemma get_config_sync: "in_sync s \<Longrightarrow> in_sync (snd (get_config s))"
proof -
  assume s: "in_sync s"
  obtain a s1 where g: "get_config s = (a, s1)" by (cases "get_config s")
  have c1: "config_cache s1 = Some a" and v1: "svc_config s1 = svc_config s"
    using get_config_result [OF g] by simp_all
  show ?thesis
  proof (cases "svc_config s")
    case None
    then show ?thesis using g v1 by (simp add: in_sync_def)
  next
    case (Some r)
    then have "config_cache s = Some r" using s by (simp add: in_sync_def)
    then have "get_config s = (r, s)" by (rule get_config_cached)
    then show ?thesis using s by simp
  qed
qed

lemma put_sync:
  assumes "in_sync s"
  shows "in_sync (snd (update_community_config b s))"
proof (cases "validate_update b")
  case (Inl errs)
  then show ?thesis using assms by (simp add: update_community_config_def)
next
  case (Inr ud)
  obtain err s1 where uc: "update_config ud s = (err, s1)" by (cases "update_config ud s")
  have s1: "in_sync s1" using update_config_sync [OF assms, of ud] uc by simp
  obtain a s2 where g: "get_config s1 = (a, s2)" by (cases "get_config s1")
  have s2: "in_sync s2" using get_config_sync [OF s1] g by simp
  show ?thesis
    using assms s1 s2
    by (simp add: update_community_config_def Inr uc g split: option.splits pyerror.splits)
qed

subsection \<open>The manager called directly\<close>

text \<open>
  \<open>update_config\<close> itself checks no bounds: called directly with a factor of 5, it
  stores 5 in the cached object and in the database.
\<close>

lemma update_config_unchecked:
  "fst (update_config [(''regional_to_community_scaling'', 5)] loaded_sys) = None
   \<and> heap (snd (update_config [(''regional_to_community_scaling'', 5)] loaded_sys)) 0
        ''regional_to_community_scaling'' = 5
   \<and> map_option (\<lambda>d. d ''regional_to_community_scaling'')
        (db_doc (snd (update_config [(''regional_to_community_scaling'', 5)] loaded_sys)))
        = Some 5"
proof -
  have g: "get_config loaded_sys = (0, loaded_sys)"
    by (rule get_config_cached) (simp add: loaded_state)
  have u: "update_and_calculate (heap loaded_sys 0) [(''regional_to_community_scaling'', 5)]
             (utc_now loaded_sys)
           = (None, (calculate_derived_values
                       ((heap loaded_sys 0)(''regional_to_community_scaling'' := 5)))
                    (''updated_at'' := utc_now loaded_sys))"
    by (simp add: update_and_calculate_def set_scaling del: set_attributes.simps)
  have up: "db_up loaded_sys" by (simp add: loaded_state)
  show ?thesis
    unfolding update_config_unfold [OF g u] using up by (simp add: derived_scaling)
qed

subsection \<open>The claims on the configuration\<close>




text \<open>
  C5, as the code has it. The service instance fetches the configuration object once and
  keeps the reference; the values are not read again per request. The manager changes
  the cached object in place, so an update is seen by the instance that holds the same
  object: for every state in which the instance holds no reference yet or holds the
  object cached by the manager, after a query, then a successful update request that
  sets \<open>regional_to_community_scaling\<close>, the factor a further query of the same instance
  reads is the updated one, and a consumption computed from records at the hour uses it.
  The assumption holds when the process starts and is kept by queries and by update
  requests (\<open>consumption_sync\<close>, \<open>put_sync\<close>).
\<close>

theorem update_visible:
  assumes "in_sync s"
    and "update_community_config b (snd (get_current_consumption data h s)) = (Ok c, s')"
    and "b ''regional_to_community_scaling'' = Some (JNum (Fin v))"
  shows "scaling_read s' = v
         \<and> (hour_rows h' (demand_data data') \<noteq> []
              \<and> list_all finite_regions (hour_rows h' (demand_data data'))
            \<longrightarrow> fst (get_current_consumption data' h' s')
                  = avg_mw_spec h' (demand_data data') * 1000 * v)"
  using update_visible_scaling [OF assms] consumption_matching [of h' data' s'] by simp

theorem update_visible_witness:
  "in_sync fresh_sys
   \<and> scaling_body ''regional_to_community_scaling'' = Some (JNum (Fin (1 / 200)))
   \<and> fst (get_current_consumption noon_data 12 fresh_sys) = 100
   \<and> (case fst (update_community_config scaling_body
                   (snd (get_current_consumption noon_data 12 fresh_sys))) of
         Ok c \<Rightarrow> c ''regional_to_community_scaling'' = 1 / 200 | _ \<Rightarrow> False)
   \<and> fst (get_current_consumption noon_data 12
            (snd (update_community_config scaling_body
                   (snd (get_current_consumption noon_data 12 fresh_sys))))) = 5000"
proof -
  let ?s1 = "snd (get_current_consumption noon_data 12 fresh_sys)"
  let ?c = "(calculate_derived_values
               ((new_document 0)(''regional_to_community_scaling'' := 1 / 200)))
              (''updated_at'' := 0)"
  have sync: "in_sync fresh_sys" by (simp add: in_sync_def fresh_sys_def)
  have val: "scaling_body ''regional_to_community_scaling'' = Some (JNum (Fin (1 / 200)))"
    by (simp add: scaling_body_def)
  have q1: "fst (get_current_consumption noon_data 12 fresh_sys) = 100"
    by (simp add: noon_value scaling_read_fresh)
  have up: "db_up ?s1" and cache: "config_cache ?s1 = Some 0"
    and now: "utc_now ?s1 = 0" and h: "heap ?s1 0 = new_document 0"
    by (simp_all add: fresh_first_query)
  have sa: "set_attributes (heap ?s1 0) [(''regional_to_community_scaling'', 1 / 200)]
              = (None, (new_document 0)(''regional_to_community_scaling'' := 1 / 200))"
    unfolding h by (rule set_scaling)
  have hh: "((new_document 0)(''regional_to_community_scaling'' := 1 / 200)) ''total_households''
              \<noteq> 0"
    by (simp add: new_document_households)
  have ne: "[(''regional_to_community_scaling'', 1 / 200::real)] \<noteq> []" by simp
  obtain s' where upd: "update_community_config scaling_body ?s1 = (Ok ?c, s')"
    using put_valid [OF scaling_body_valid ne up cache sa hh, unfolded now] by blast
  have okc: "?c ''regional_to_community_scaling'' = 1 / 200"
    by (simp add: derived_scaling)
  have "fst (get_current_consumption noon_data 12 s') = 5000"
    using update_visible [OF sync upd val, of 12 noon_data] noon_rows noon_avg by simp
  then show ?thesis using sync val q1 upd okc by simp
qed

text \<open>
  The claim as the specification states it fails once \<open>reset_config\<close> has replaced the
  manager's object while the service instance keeps the old one. In the state reached
  from a fresh process by one query and a reset, the sequence of the claim gives: a
  query (100 kW for 1000 MW at the default factor 0.0001), a successful update of
  \<open>regional_to_community_scaling\<close> to 0.005, and a second query of the same instance
  that still returns 100 kW, where the updated factor gives 5000 kW.
\<close>

theorem update_invisible_after_reset:
  "fst (get_current_consumption noon_data 12 stale_sys) = 100
   \<and> (case fst (update_community_config scaling_body
                   (snd (get_current_consumption noon_data 12 stale_sys))) of
         Ok c \<Rightarrow> c ''regional_to_community_scaling'' = 1 / 200 | _ \<Rightarrow> False)
   \<and> fst (get_current_consumption noon_data 12
            (snd (update_community_config scaling_body
                   (snd (get_current_consumption noon_data 12 stale_sys))))) = 100
   \<and> avg_mw_spec 12 (demand_data noon_data) * 1000 * (1 / 200) = 5000"
proof -
  have svc: "svc_config stale_sys = Some 0" by (simp add: stale_state)
  have q1: "snd (get_current_consumption noon_data 12 stale_sys) = stale_sys"
    using svc by (rule consumption_state_cached)
  have h0: "heap stale_sys 0 = new_document 0" by (simp add: stale_state)
  have r1: "scaling_read stale_sys = 1 / 10000"
    unfolding scaling_read_cached [OF svc] h0 by (rule new_document_scaling)
  have svc2: "svc_config (snd (update_community_config scaling_body stale_sys)) = Some 0"
    unfolding stale_put using svc by simp
  have h2: "heap (snd (update_community_config scaling_body stale_sys)) 0 = new_document 0"
    unfolding stale_put using h0 by simp
  have r2: "scaling_read (snd (update_community_config scaling_body stale_sys)) = 1 / 10000"
    unfolding scaling_read_cached [OF svc2] h2 by (rule new_document_scaling)
  have ok: "(case fst (update_community_config scaling_body stale_sys) of
         Ok c \<Rightarrow> c ''regional_to_community_scaling'' = 1 / 200 | _ \<Rightarrow> False)"
    unfolding stale_put by (simp add: derived_scaling)
  show ?thesis
    unfolding q1 noon_value r1 r2 noon_avg using ok by simp
qed

end
